theory Spec2Isabelle
  imports Main "HOL-Library.Sublist"
begin

section \<open>Python values used by \<open>cli/project.py\<close>\<close>

text \<open>
  Exceptions are values. Only the classes that \<open>project.py\<close> can raise on the paths
  modelled here are listed. \<open>RecursionError\<close> is what Python raises when a property
  that walks the \<open>parent\<close> chain, or the nested generators of \<open>iter_module\<close>, exceed the
  interpreter's recursion depth.
\<close>

datatype error = KeyError | IndexError | TypeError | ValueError | OSError
  | AttributeError | RecursionError

subsection \<open>Strings\<close>

text \<open>
  \<open>str.find(c)\<close> and \<open>str.rfind(c)\<close> for a one-character needle: the first (last)
  index of the character, or \<open>-1\<close>.
\<close>

definition find_char :: "char \<Rightarrow> string \<Rightarrow> int" where
  "find_char c s =
     (if c \<in> set s then int (length (takeWhile (\<lambda>x. x \<noteq> c) s)) else - 1)"

definition rfind_char :: "char \<Rightarrow> string \<Rightarrow> int" where
  "rfind_char c s =
     (if c \<in> set s
      then int (length s) - 1 - int (length (takeWhile (\<lambda>x. x \<noteq> c) (rev s)))
      else - 1)"

text \<open>\<open>str.split(c)\<close> with an explicit one-character separator: never an empty list.\<close>

fun split_char :: "char \<Rightarrow> string \<Rightarrow> string list" where
  "split_char c [] = [[]]"
| "split_char c (x # xs) =
     (if x = c then [] # split_char c xs
      else (case split_char c xs of
              f # fs \<Rightarrow> (x # f) # fs
            | [] \<Rightarrow> [[x]]))"

text \<open>
  \<open>str.split()\<close> without a separator splits at runs of whitespace and drops empty
  fields; \<open>str.strip()\<close> removes whitespace at both ends. A \<open>char\<close> stands for
  a code point below 256, and whitespace is what \<open>str.isspace\<close> says of these: the
  ASCII controls and blank, U+0085 and U+00A0.
\<close>

definition is_space :: "char \<Rightarrow> bool" where
  "is_space c = (c \<in> set [CHR 0x09, CHR 0x0A, CHR 0x0B, CHR 0x0C, CHR 0x0D,
                           CHR 0x1C, CHR 0x1D, CHR 0x1E, CHR 0x1F, CHR 0x20,
                           CHR 0x85, CHR 0xA0])"

fun split_ws :: "string \<Rightarrow> string list" where
  "split_ws [] = []"
| "split_ws (c # cs) =
     (if is_space c then split_ws cs
      else if cs = [] \<or> is_space (hd cs) then [c] # split_ws cs
      else (case split_ws cs of
              w # ws \<Rightarrow> (c # w) # ws
            | [] \<Rightarrow> [[c]]))"

definition strip_ws :: "string \<Rightarrow> string" where
  "strip_ws s = rev (dropWhile is_space (rev (dropWhile is_space s)))"

text \<open>\<open>s.strip(chars)\<close>: with \<open>chars = ''\<close> nothing is stripped.\<close>

definition strip_chars :: "string \<Rightarrow> string \<Rightarrow> string" where
  "strip_chars chars s =
     rev (dropWhile (\<lambda>c. c \<in> set chars) (rev (dropWhile (\<lambda>c. c \<in> set chars) s)))"

text \<open>
  \<open>s.replace(old, new)\<close> for a non-empty \<open>old\<close>: non-overlapping occurrences, left to
  right. The counter is the number of characters of a matched \<open>old\<close> still to skip.
\<close>

fun replace_skip :: "string \<Rightarrow> string \<Rightarrow> nat \<Rightarrow> string \<Rightarrow> string" where
  "replace_skip old new k [] = []"
| "replace_skip old new (Suc k) (c # cs) = replace_skip old new k cs"
| "replace_skip old new 0 (c # cs) =
     (if prefix old (c # cs) then new @ replace_skip old new (length old - 1) cs
      else c # replace_skip old new 0 cs)"

definition replace :: "string \<Rightarrow> string \<Rightarrow> string \<Rightarrow> string" where
  "replace old new s = replace_skip old new 0 s"

definition endswith :: "string \<Rightarrow> char \<Rightarrow> bool" where
  "endswith s c = (s \<noteq> [] \<and> last s = c)"

text \<open>\<open>sep.join(xs)\<close>.\<close>

fun str_join :: "string \<Rightarrow> string list \<Rightarrow> string" where
  "str_join sep [] = []"
| "str_join sep [x] = x"
| "str_join sep (x # y # ys) = x @ sep @ str_join sep (y # ys)"

subsection \<open>\<open>os.path\<close> on a POSIX host\<close>

text \<open>
  \<open>isabs\<close>, \<open>join\<close> (two arguments), \<open>basename\<close> and \<open>splitext\<close> as \<open>posixpath\<close>
  defines them; \<open>os.sep\<close> is \<open>/\<close>.
\<close>

definition isabs :: "string \<Rightarrow> bool" where
  "isabs p = (case p of [] \<Rightarrow> False | c # _ \<Rightarrow> c = CHR ''/'')"

definition joinpath :: "string \<Rightarrow> string \<Rightarrow> string" where
  "joinpath a b =
     (if isabs b then b
      else if a = [] \<or> endswith a (CHR ''/'') then a @ b
      else a @ ''/'' @ b)"

definition basename :: "string \<Rightarrow> string" where
  "basename p = drop (nat (rfind_char (CHR ''/'') p + 1)) p"

definition splitext :: "string \<Rightarrow> string \<times> string" where
  "splitext p =
     (let sepIndex = rfind_char (CHR ''/'') p;
          dotIndex = rfind_char (CHR ''.'') p
      in if dotIndex > sepIndex \<and>
            list_ex (\<lambda>c. c \<noteq> CHR ''.'') (drop (nat (sepIndex + 1)) (take (nat dotIndex) p))
         then (take (nat dotIndex) p, drop (nat dotIndex) p)
         else (p, []))"

text \<open>
  What the module takes from the operating system and from \<open>glob\<close>, \<open>fnmatch\<close> and
  the rest of \<open>os.path\<close> is a parameter of the model: one record of functions, read but
  never changed by the operations below. \<open>os_scandir\<close> gives the entries of a directory
  in enumeration order, or \<open>None\<close> when \<open>os.scandir\<close> raises; \<open>os_makedirs\<close> tells
  whether \<open>os.makedirs(dp, exist_ok=True)\<close> succeeds, and the other functions describe
  the host as it is once that directory exists. \<open>os_glob\<close> takes the pattern and the
  \<open>recursive\<close> flag.
\<close>

record dirent =
  d_name :: string
  d_is_dir :: bool
  d_is_file :: bool

record os_env =
  os_glob :: "string \<Rightarrow> bool \<Rightarrow> string list"
  os_fnmatch :: "string \<Rightarrow> string \<Rightarrow> bool"
  os_scandir :: "string \<Rightarrow> dirent list option"
  os_exists :: "string \<Rightarrow> bool"
  os_makedirs :: "string \<Rightarrow> bool"
  os_normpath :: "string \<Rightarrow> string"
  os_abspath :: "string \<Rightarrow> string"
  os_relpath :: "string \<Rightarrow> string \<Rightarrow> string"

section \<open>Project file view\<close>

definition GLOBAL_EXCLS :: "string list" where
  "GLOBAL_EXCLS = [''.*'', ''__pycache__'']"

definition GLOBAL_INCLS :: "string list" where
  "GLOBAL_INCLS = [''*.py'', ''*.pyw'']"

text \<open>
  \<open>scan_path(path, includes=None, excludes=[])\<close>. An \<open>includes\<close> that is \<open>None\<close> or
  empty is falsy and replaced by \<open>GLOBAL_INCLS\<close>.
\<close>

fun scan_entries :: "os_env \<Rightarrow> string list \<Rightarrow> string list \<Rightarrow> dirent list
    \<Rightarrow> string list \<times> string list" where
  "scan_entries os xlist excludes [] = ([], [])"
| "scan_entries os xlist excludes (et # ets) =
     (let (files, dirs) = scan_entries os xlist excludes ets
      in if list_ex (\<lambda>x. os_fnmatch os (d_name et) x) excludes then (files, dirs)
         else if d_is_dir et then (files, d_name et # dirs)
         else if d_is_file et \<and> list_ex (\<lambda>x. os_fnmatch os (d_name et) x) xlist
           then (d_name et # files, dirs)
         else (files, dirs))"

definition scan_path :: "os_env \<Rightarrow> string \<Rightarrow> string list option \<Rightarrow> string list
    \<Rightarrow> error + (string list \<times> string list)" where
  "scan_path os path includes excludes =
     (let xlist = (case includes of
                     None \<Rightarrow> GLOBAL_INCLS
                   | Some incl \<Rightarrow> if incl \<noteq> [] then incl else GLOBAL_INCLS)
      in case os_scandir os path of
           None \<Rightarrow> Inl OSError
         | Some ets \<Rightarrow> Inr (scan_entries os xlist excludes ets))"

text \<open>\<open>search_item(root, pattern, excludes, recursive=0)\<close>.\<close>

definition search_item :: "os_env \<Rightarrow> string \<Rightarrow> string \<Rightarrow> string list \<Rightarrow> bool
    \<Rightarrow> string list" where
  "search_item os root pattern excludes recursive =
     (if pattern = [] then []
      else
        let sep = (if endswith pattern (CHR ''/'') then ''/'' else []);
            pt = (if isabs pattern then pattern else joinpath root pattern);
            result = filter
              (\<lambda>item. \<not> (excludes \<noteq> [] \<and>
                 list_ex (\<lambda>x. os_fnmatch os (basename (strip_chars sep item)) x) excludes))
              (os_glob os pt recursive)
        in map (os_normpath os) result)"

section \<open>Concepts\<close>

text \<open>
  Objects live in a heap, a list indexed by reference, so that "the same object" is
  "the same reference". A \<open>Module\<close>, \<open>Script\<close> or \<open>Package\<close> instance is a
  \<open>code_unit\<close>; \<open>u_modules\<close> and \<open>u_packages\<close> are the \<open>_modules\<close> and \<open>_packages\<close>
  of a \<open>Package\<close> (\<open>None\<close> until loaded). The fields \<open>_co\<close>, \<open>_tree\<close> and \<open>_type\<close>
  are touched only by \<open>parse_file\<close> and \<open>compile_file\<close> and are left out.
  \<open>parent\<close> is \<open>None\<close>, the \<open>Project\<close>, or another unit.
\<close>

type_synonym ref = nat

datatype parent_ref = NoParent | ProjectParent | UnitParent ref

datatype unit_kind = ModuleK | ScriptK | PackageK

record code_unit =
  u_kind :: unit_kind
  u_parent :: parent_ref
  u_path :: string
  u_name :: string
  u_modules :: "ref list option"
  u_packages :: "ref list option"

text \<open>
  \<open>Module.__init__(path, name=None, parent=None)\<close>, shared by \<open>Script\<close> and
  \<open>Package\<close>: \<open>_name = name if name else splitext(basename(path))[0]\<close>.
\<close>

definition new_unit :: "unit_kind \<Rightarrow> string \<Rightarrow> string option \<Rightarrow> parent_ref \<Rightarrow> code_unit" where
  "new_unit k path name par =
     \<lparr>u_kind = k, u_parent = par, u_path = path,
      u_name = (case name of
                  None \<Rightarrow> fst (splitext (basename path))
                | Some n \<Rightarrow> if n \<noteq> [] then n else fst (splitext (basename path))),
      u_modules = None, u_packages = None\<rparr>"

text \<open>The \<open>name\<close> property.\<close>

definition unit_name :: "code_unit \<Rightarrow> string" where
  "unit_name u = (if u_name u = ''__init__'' then [] else u_name u)"

text \<open>
  The \<open>qualname\<close> property follows \<open>parent\<close> through the heap. It does not return
  (\<open>None\<close>) on a cyclic parent chain, where Python ends in \<open>RecursionError\<close>, nor
  for a reference outside the heap, which no run can produce.
\<close>

partial_function (option) qualname :: "code_unit list \<Rightarrow> ref \<Rightarrow> string option" where
  "qualname h r =
     (if r < length h then
        (case u_parent (h ! r) of
           NoParent \<Rightarrow> Some (u_name (h ! r))
         | ProjectParent \<Rightarrow> Some (u_name (h ! r))
         | UnitParent p \<Rightarrow>
             Option.bind (qualname h p)
               (\<lambda>pq. Some ((pq @ (if unit_name (h ! r) \<noteq> [] then ''.'' else []))
                            @ unit_name (h ! r))))
      else None)"

text \<open>
  What the parent's \<open>qualname\<close> evaluates to: \<open>None\<close> and \<open>Project\<close> have no such
  attribute.
\<close>

definition parent_qualname :: "code_unit list \<Rightarrow> ref \<Rightarrow> string option" where
  "parent_qualname h r =
     (case u_parent (h ! r) of
        UnitParent p \<Rightarrow> qualname h p
      | NoParent \<Rightarrow> None
      | ProjectParent \<Rightarrow> None)"

declare qualname.simps [code]

text \<open>
  The \<open>abspath\<close> property of a unit: its own path when absolute, else joined to the
  parent's \<open>abspath\<close>. \<open>Project.abspath\<close> is \<open>os.path.abspath(self.src)\<close>; with no
  parent the attribute lookup on \<open>None\<close> raises \<open>AttributeError\<close>.
\<close>

partial_function (option) unit_abspath ::
    "os_env \<Rightarrow> string \<Rightarrow> code_unit list \<Rightarrow> ref \<Rightarrow> (error + string) option" where
  "unit_abspath os src h r =
     (if r < length h then
        (if isabs (u_path (h ! r)) then Some (Inr (u_path (h ! r)))
         else
           (case u_parent (h ! r) of
              NoParent \<Rightarrow> Some (Inl AttributeError)
            | ProjectParent \<Rightarrow> Some (Inr (joinpath (os_abspath os src) (u_path (h ! r))))
            | UnitParent p \<Rightarrow>
                Option.bind (unit_abspath os src h p)
                  (\<lambda>res. case res of
                            Inl e \<Rightarrow> Some (Inl e)
                          | Inr pa \<Rightarrow> Some (Inr (joinpath pa (u_path (h ! r)))))))
      else None)"

declare unit_abspath.simps [code]

subsection \<open>The state: the heap and the one \<open>Project\<close>\<close>

text \<open>
  \<open>Namespace\<close> instances carry no state. \<open>local_path\<close> is \<open>ctx.local_path\<close>. The
  configuration caches (\<open>_rft_options\<close>, \<open>_rft_filters\<close>, \<open>_rft_rulers\<close>,
  \<open>_builtins\<close>) and \<open>unknown_attrs\<close> are not read or written by the operations
  below and are left out. \<open>p_rmodules\<close> is the dictionary \<open>_rmodules\<close>.
\<close>

datatype namespace = Namespace

record state =
  heap :: "code_unit list"
  local_path :: string
  p_src :: string
  p_scripts :: "ref list"
  p_modules :: "ref list"
  p_packages :: "ref list"
  p_namespaces :: "namespace list"
  p_rmodules :: "(string \<rightharpoonup> ref) option"
  unknown_vars :: "string list"
  unknown_calls :: "string list"
  unknown_args :: "string list"

text \<open>\<open>Project.__init__(ctx)\<close>, on an empty heap.\<close>

definition project_init :: "string \<Rightarrow> state" where
  "project_init lp =
     \<lparr>heap = [], local_path = lp, p_src = [], p_scripts = [], p_modules = [],
      p_packages = [], p_namespaces = [], p_rmodules = None,
      unknown_vars = [], unknown_calls = [], unknown_args = []\<rparr>"

text \<open>Building a list of objects allocates them in order at the end of the heap.\<close>

definition alloc_units :: "code_unit list \<Rightarrow> code_unit list \<Rightarrow> ref list \<times> code_unit list" where
  "alloc_units us h = ([length h ..< length h + length us], h @ us)"

subsection \<open>Package\<close>

definition is_package :: "code_unit list \<Rightarrow> ref \<Rightarrow> bool" where
  "is_package h r = (r < length h \<and> u_kind (h ! r) = PackageK)"

text \<open>
  \<open>Package.load\<close>: one scan of \<open>self.abspath\<close> with the global excludes, then
  \<open>_modules\<close> and \<open>_packages\<close> are assigned lists of new objects. There is no test of
  either field. Only a \<open>Package\<close> has the method.
\<close>

definition package_load :: "os_env \<Rightarrow> state \<Rightarrow> ref \<Rightarrow> error option \<times> state" where
  "package_load os s r =
     (if \<not> is_package (heap s) r then (Some AttributeError, s)
      else
        case unit_abspath os (p_src s) (heap s) r of
          None \<Rightarrow> (Some RecursionError, s)
        | Some (Inl e) \<Rightarrow> (Some e, s)
        | Some (Inr ap) \<Rightarrow>
            (case scan_path os ap None GLOBAL_EXCLS of
               Inl e \<Rightarrow> (Some e, s)
             | Inr (files, dirs) \<Rightarrow>
                 let (mrefs, h1) =
                       alloc_units (map (\<lambda>x. new_unit ModuleK x None (UnitParent r)) files) (heap s);
                     h2 = h1[r := (h1 ! r)\<lparr>u_modules := Some mrefs\<rparr>];
                     (prefs, h3) =
                       alloc_units (map (\<lambda>x. new_unit PackageK x None (UnitParent r)) dirs) h2;
                     h4 = h3[r := (h3 ! r)\<lparr>u_packages := Some prefs\<rparr>]
                 in (None, s\<lparr>heap := h4\<rparr>)))"

text \<open>
  The generator properties \<open>modules\<close> and \<open>packages\<close>, run to exhaustion: the value is
  the list of the objects yielded. Iterating a field that is still \<open>None\<close> raises
  \<open>TypeError\<close>.
\<close>

definition package_modules :: "os_env \<Rightarrow> state \<Rightarrow> ref \<Rightarrow> (error + ref list) \<times> state" where
  "package_modules os s r =
     (if \<not> is_package (heap s) r then (Inl AttributeError, s)
      else
        case (if u_modules (heap s ! r) = None then package_load os s r else (None, s)) of
          (Some e, s1) \<Rightarrow> (Inl e, s1)
        | (None, s1) \<Rightarrow>
            (case u_modules (heap s1 ! r) of
               None \<Rightarrow> (Inl TypeError, s1)
             | Some ms \<Rightarrow> (Inr ms, s1)))"

definition package_packages :: "os_env \<Rightarrow> state \<Rightarrow> ref \<Rightarrow> (error + ref list) \<times> state" where
  "package_packages os s r =
     (if \<not> is_package (heap s) r then (Inl AttributeError, s)
      else
        case (if u_packages (heap s ! r) = None then package_load os s r else (None, s)) of
          (Some e, s1) \<Rightarrow> (Inl e, s1)
        | (None, s1) \<Rightarrow>
            (case u_packages (heap s1 ! r) of
               None \<Rightarrow> (Inl TypeError, s1)
             | Some ps \<Rightarrow> (Inr ps, s1)))"

text \<open>
  \<open>for child in children: for x in child.iter_module(): yield x\<close>, with the state
  threaded through and the first exception ending the iteration.
\<close>

fun iter_each :: "(state \<Rightarrow> ref \<Rightarrow> (error + ref list) \<times> state) \<Rightarrow> state \<Rightarrow> ref list
    \<Rightarrow> (error + ref list) \<times> state" where
  "iter_each f s [] = (Inr [], s)"
| "iter_each f s (p # ps) =
     (case f s p of
        (Inl e, s1) \<Rightarrow> (Inl e, s1)
      | (Inr xs, s1) \<Rightarrow>
          (case iter_each f s1 ps of
             (Inl e, s2) \<Rightarrow> (Inl e, s2)
           | (Inr ys, s2) \<Rightarrow> (Inr (xs @ ys), s2)))"

text \<open>
  \<open>Package.iter_module\<close>, run to exhaustion. The first argument bounds the nesting of
  the generators, as the interpreter's recursion limit does.
\<close>

fun package_iter_module :: "nat \<Rightarrow> os_env \<Rightarrow> state \<Rightarrow> ref \<Rightarrow> (error + ref list) \<times> state" where
  "package_iter_module 0 os s r = (Inl RecursionError, s)"
| "package_iter_module (Suc n) os s r =
     (if \<not> is_package (heap s) r then (Inl AttributeError, s)
      else
        case (if u_modules (heap s ! r) = None \<or> u_packages (heap s ! r) = None
              then package_load os s r else (None, s)) of
          (Some e, s1) \<Rightarrow> (Inl e, s1)
        | (None, s1) \<Rightarrow>
            (case (u_modules (heap s1 ! r), u_packages (heap s1 ! r)) of
               (Some ms, Some ps) \<Rightarrow>
                 (case iter_each (\<lambda>s' p. package_iter_module n os s' p) s1 ps of
                    (Inl e, s2) \<Rightarrow> (Inl e, s2)
                  | (Inr xs, s2) \<Rightarrow> (Inr (ms @ xs), s2))
             | _ \<Rightarrow> (Inl TypeError, s1)))"

subsection \<open>Project\<close>

text \<open>
  \<open>Project.iter_module\<close>: the top-level modules, then every package's modules, then
  the namespaces, which have no \<open>iter_module\<close>.
\<close>

definition project_iter_module :: "nat \<Rightarrow> os_env \<Rightarrow> state \<Rightarrow> (error + ref list) \<times> state" where
  "project_iter_module n os s =
     (case iter_each (\<lambda>s' p. package_iter_module n os s' p) s (p_packages s) of
        (Inl e, s1) \<Rightarrow> (Inl e, s1)
      | (Inr xs, s1) \<Rightarrow>
          if p_namespaces s \<noteq> [] then (Inl AttributeError, s1)
          else (Inr (p_modules s @ xs), s1))"

text \<open>
  The dictionary \<open>{x.qualname: x for x in ...}\<close>: a later module replaces an earlier
  one of the same qualname. \<open>qualname\<close> reads only \<open>_name\<close> and \<open>parent\<close>, which
  nothing assigns after construction, so it is evaluated here on the heap as the
  iteration leaves it.
\<close>

fun build_index :: "code_unit list \<Rightarrow> ref list \<Rightarrow> (string \<rightharpoonup> ref) \<Rightarrow> (string \<rightharpoonup> ref) option" where
  "build_index h [] idx = Some idx"
| "build_index h (x # xs) idx =
     (case qualname h x of
        None \<Rightarrow> None
      | Some qn \<Rightarrow> build_index h xs (idx(qn \<mapsto> x)))"

text \<open>\<open>Project.get_module(qualname)\<close>; \<open>dict.get\<close> gives \<open>None\<close> for a missing key.\<close>

definition get_module :: "nat \<Rightarrow> os_env \<Rightarrow> state \<Rightarrow> string \<Rightarrow> (error + ref option) \<times> state" where
  "get_module n os s qn =
     (case p_rmodules s of
        Some idx \<Rightarrow> (Inr (idx qn), s)
      | None \<Rightarrow>
          (case project_iter_module n os s of
             (Inl e, s1) \<Rightarrow> (Inl e, s1)
           | (Inr xs, s1) \<Rightarrow>
               (case build_index (heap s1) xs Map.empty of
                  None \<Rightarrow> (Inl RecursionError, s1)
                | Some idx \<Rightarrow> (Inr (idx qn), s1\<lparr>p_rmodules := Some idx\<rparr>))))"

text \<open>\<open>Project.relsrc(path)\<close> is \<open>relpath(path, self.src)\<close>.\<close>

definition relsrc :: "os_env \<Rightarrow> state \<Rightarrow> string \<Rightarrow> string" where
  "relsrc os s path = os_relpath os path (p_src s)"

text \<open>
  The local function \<open>vlist\<close> of \<open>load\<close>; the input record \<open>data\<close> is a dictionary
  from strings to strings.
\<close>

definition vlist :: "(string \<rightharpoonup> string) \<Rightarrow> string \<Rightarrow> string list" where
  "vlist data name =
     map (\<lambda>x. replace ''%20%'' '' '' (strip_ws x))
       (split_ws (case data name of None \<Rightarrow> [] | Some v \<Rightarrow> v))"

text \<open>
  The loop over the \<open>packages\<close> items. \<open>path, pkgname = item.split('@')\<close> raises
  \<open>ValueError\<close> unless there are exactly two fields; the packages appended before
  stay.
\<close>

fun load_packages :: "string \<Rightarrow> state \<Rightarrow> string list \<Rightarrow> error option \<times> state" where
  "load_packages src s [] = (None, s)"
| "load_packages src s (item # items) =
     (let i = find_char (CHR ''@'') item
      in if i = 0 then load_packages src s items
         else
           case (if i = - 1 then Inr (item, basename item)
                 else (case split_char (CHR ''@'') item of
                         [path, pkgname] \<Rightarrow> Inr (path, pkgname)
                       | _ \<Rightarrow> Inl ValueError)) of
             Inl e \<Rightarrow> (Some e, s)
           | Inr (path, pkgname) \<Rightarrow>
               let path' = (if \<not> isabs path then joinpath src path else path);
                   (refs, h) = alloc_units [new_unit PackageK path' (Some pkgname) ProjectParent]
                                 (heap s)
               in load_packages src (s\<lparr>heap := h, p_packages := p_packages s @ refs\<rparr>) items)"

text \<open>
  The overlap of scripts and modules: for each path of \<open>set(scripts) & set(modules)\<close>,
  \<open>modules.remove(x)\<close> deletes the first occurrence of \<open>x\<close>. Removals of different
  paths commute, so the order in which Python walks the set does not matter.
\<close>

definition reconcile :: "string list \<Rightarrow> string list \<Rightarrow> string list" where
  "reconcile scripts modules =
     (if scripts \<noteq> [] \<and> modules \<noteq> []
      then fold remove1 (remdups (filter (\<lambda>x. x \<in> set modules) scripts)) modules
      else modules)"

text \<open>The end of \<open>load\<close>: the overlap, then \<open>self._modules.extend([Module(...) ...])\<close>.\<close>

definition load_modules :: "os_env \<Rightarrow> state \<Rightarrow> string list \<Rightarrow> string list \<Rightarrow> state" where
  "load_modules os s scripts modules =
     (let (refs, h) =
            alloc_units
              (map (\<lambda>x. new_unit ModuleK (relsrc os s x) None ProjectParent)
                 (reconcile scripts modules))
              (heap s)
      in s\<lparr>heap := h, p_modules := p_modules s @ refs\<rparr>)"

text \<open>
  \<open>Project.load(data)\<close>. The result is the exception raised, if any, and the state
  left behind. The calls of \<open>logger\<close> have no effect on the state.
\<close>

definition project_load :: "os_env \<Rightarrow> state \<Rightarrow> (string \<rightharpoonup> string) \<Rightarrow> error option \<times> state" where
  "project_load os s data =
     (if \<not> os_makedirs os (joinpath (local_path s) ''project'') then (Some OSError, s)
      else
        case data ''src'' of
          None \<Rightarrow> (Some KeyError, s)
        | Some src \<Rightarrow>
            let s1 = s\<lparr>p_src := src\<rparr>;
                name = data ''name'';
                excludes = vlist data ''excludes'' @ GLOBAL_EXCLS;
                scripts = concat (map (\<lambda>pat. search_item os src pat excludes False)
                                    (vlist data ''scripts''));
                (srefs, h) = alloc_units
                               (map (\<lambda>x. new_unit ScriptK (relsrc os s1 x) None ProjectParent)
                                  scripts)
                               (heap s1);
                s2 = s1\<lparr>heap := h, p_scripts := p_scripts s1 @ srefs\<rparr>;
                modules = concat (map (\<lambda>pat. search_item os src pat excludes False)
                                    (vlist data ''modules''));
                packages = vlist data ''packages''
            in if packages \<noteq> [] then
                 (case load_packages src s2 packages of
                    (Some e, s3) \<Rightarrow> (Some e, s3)
                  | (None, s3) \<Rightarrow> (None, load_modules os s3 scripts modules))
               else if modules = [] \<and> scripts = [] then
                 (if os_exists os (joinpath src ''__init__.py'') then
                    let pkgname = (case name of
                                     None \<Rightarrow> basename src
                                   | Some n \<Rightarrow> if n \<noteq> [] then n else basename src);
                        (refs, h3) = alloc_units
                                       [new_unit PackageK src (Some pkgname) ProjectParent]
                                       (heap s2);
                        s3 = s2\<lparr>heap := h3, p_packages := p_packages s2 @ refs\<rparr>
                    in (None, load_modules os s3 scripts modules)
                  else
                    (case scan_path os src None excludes of
                       Inl e \<Rightarrow> (Some e, s2)
                     | Inr (files, dirs) \<Rightarrow>
                         let modules' = modules @ map (\<lambda>x. joinpath src x) files;
                             (refs, h3) = alloc_units
                                            (map (\<lambda>x. new_unit PackageK x None ProjectParent) dirs)
                                            (heap s2);
                             s3 = s2\<lparr>heap := h3, p_packages := p_packages s2 @ refs\<rparr>
                         in (None, load_modules os s3 scripts modules')))
               else (None, load_modules os s2 scripts modules))"

text \<open>
  What one call of \<open>load\<close> finds, apart from the project it is called on: the new
  \<open>Script\<close>, \<open>Package\<close> and \<open>Module\<close> objects, in the order in which \<open>load\<close>
  builds them, or the exception raised after \<open>src\<close> was read. \<open>package_units\<close> are
  the packages of the \<open>packages\<close> items.
\<close>

fun package_units :: "string \<Rightarrow> string list \<Rightarrow> error + code_unit list" where
  "package_units src [] = Inr []"
| "package_units src (item # items) =
     (let i = find_char (CHR ''@'') item
      in if i = 0 then package_units src items
         else
           case (if i = - 1 then Inr (item, basename item)
                 else (case split_char (CHR ''@'') item of
                         [path, pkgname] \<Rightarrow> Inr (path, pkgname)
                       | _ \<Rightarrow> Inl ValueError)) of
             Inl e \<Rightarrow> Inl e
           | Inr (path, pkgname) \<Rightarrow>
               (case package_units src items of
                  Inl e \<Rightarrow> Inl e
                | Inr us \<Rightarrow>
                    Inr (new_unit PackageK (if \<not> isabs path then joinpath src path else path)
                           (Some pkgname) ProjectParent # us)))"

definition discovered :: "os_env \<Rightarrow> string \<Rightarrow> (string \<rightharpoonup> string)
    \<Rightarrow> error + (code_unit list \<times> code_unit list \<times> code_unit list)" where
  "discovered os src data =
     (let name = data ''name'';
          excludes = vlist data ''excludes'' @ GLOBAL_EXCLS;
          scripts = concat (map (\<lambda>pat. search_item os src pat excludes False)
                              (vlist data ''scripts''));
          modules = concat (map (\<lambda>pat. search_item os src pat excludes False)
                              (vlist data ''modules''));
          packages = vlist data ''packages'';
          new_scripts = map (\<lambda>x. new_unit ScriptK (os_relpath os x src) None ProjectParent) scripts;
          new_modules = (\<lambda>ms. map (\<lambda>x. new_unit ModuleK (os_relpath os x src) None ProjectParent)
                                 (reconcile scripts ms))
      in if packages \<noteq> [] then
           (case package_units src packages of
              Inl e \<Rightarrow> Inl e
            | Inr pkgs \<Rightarrow> Inr (new_scripts, pkgs, new_modules modules))
         else if modules = [] \<and> scripts = [] then
           (if os_exists os (joinpath src ''__init__.py'') then
              Inr (new_scripts,
                   [new_unit PackageK src
                      (Some (case name of
                               None \<Rightarrow> basename src
                             | Some n \<Rightarrow> if n \<noteq> [] then n else basename src))
                      ProjectParent],
                   new_modules modules)
            else
              (case scan_path os src None excludes of
                 Inl e \<Rightarrow> Inl e
               | Inr (files, dirs) \<Rightarrow>
                   Inr (new_scripts,
                        map (\<lambda>x. new_unit PackageK x None ProjectParent) dirs,
                        new_modules (modules @ map (\<lambda>x. joinpath src x) files))))
         else Inr (new_scripts, [], new_modules modules))"

text \<open>
  A state with new scripts, packages and modules appended: the objects at the end of the
  heap in this order, their references at the end of the three lists.
\<close>

definition appended :: "state \<Rightarrow> code_unit list \<Rightarrow> code_unit list \<Rightarrow> code_unit list \<Rightarrow> state" where
  "appended s S P M =
     s\<lparr>heap := heap s @ S @ P @ M,
       p_scripts := p_scripts s @ [length (heap s) ..< length (heap s) + length S],
       p_packages := p_packages s @
          [length (heap s) + length S ..< length (heap s) + length S + length P],
       p_modules := p_modules s @
          [length (heap s) + length S + length P ..<
           length (heap s) + length S + length P + length M]\<rparr>"

subsection \<open>Diagnostic logs\<close>

text \<open>\<open>log_unknown_var(module, var)\<close> with the key \<open>'%s:%s' % (module, var)\<close>.\<close>

definition log_unknown_var :: "state \<Rightarrow> string \<Rightarrow> string \<Rightarrow> state" where
  "log_unknown_var s module var =
     (let key = module @ '':'' @ var
      in if key \<notin> set (unknown_vars s)
         then s\<lparr>unknown_vars := unknown_vars s @ [key]\<rparr>
         else s)"

text \<open>
  The argument of \<open>log_unknown_call\<close> is a string or an object with a \<open>module\<close> and
  a list of \<open>scopes\<close>.

  For a string, \<open>fields[2]\<close> raises \<open>IndexError\<close> when \<open>split(':')\<close> gives fewer than
  three fields. When the third field has no dot, the operand of
  \<open>'%s:%s.%s' % fields\<close> is a list, which the \<open>%\<close> operator takes as one argument for
  three conversions: it raises \<open>TypeError\<close> before \<open>log_unknown_var\<close> is entered
  (which, called with one argument, would raise \<open>TypeError\<close> as well). Otherwise the
  string goes to \<open>unknown_args\<close>.
\<close>

datatype call_key = StrKey string | Caller string "string list"

fun log_unknown_call :: "state \<Rightarrow> call_key \<Rightarrow> error option \<times> state" where
  "log_unknown_call s (StrKey func) =
     (let fields = split_char (CHR '':'') func
      in if length fields < 3 then (Some IndexError, s)
         else if find_char (CHR ''.'') (fields ! 2) = - 1 then (Some TypeError, s)
         else if func \<notin> set (unknown_args s)
           then (None, s\<lparr>unknown_args := unknown_args s @ [func]\<rparr>)
         else (None, s))"
| "log_unknown_call s (Caller module scopes) =
     (let name = str_join '':'' [module, str_join ''.'' scopes]
      in if name \<notin> set (unknown_calls s)
         then (None, s\<lparr>unknown_calls := unknown_calls s @ [name]\<rparr>)
         else (None, s))"

text \<open>A sequence of calls of \<open>log_unknown_var\<close>.\<close>

definition log_vars :: "state \<Rightarrow> (string \<times> string) list \<Rightarrow> state" where
  "log_vars s calls = foldl (\<lambda>s' (m, v). log_unknown_var s' m v) s calls"

section \<open>Example inputs\<close>

text \<open>
  A heap with a top-level package \<open>pkg\<close>, its \<open>__init__\<close> module and a module \<open>m\<close>,
  a top-level module \<open>__init__\<close> and a module \<open>x\<close> without a parent.
\<close>

definition ex_heap :: "code_unit list" where
  "ex_heap =
     [new_unit PackageK ''/p/pkg'' None ProjectParent,
      new_unit ModuleK ''__init__.py'' None (UnitParent 0),
      new_unit ModuleK ''m.py'' None (UnitParent 0),
      new_unit ModuleK ''__init__.py'' None ProjectParent,
      new_unit ModuleK ''x.py'' None NoParent]"

text \<open>
  An operating system for the examples: \<open>/p/pkg\<close> holds \<open>__init__.py\<close>, \<open>m.py\<close>,
  a directory \<open>.git\<close> and a package \<open>sub\<close> with \<open>x.py\<close>; \<open>/p\<close> holds
  \<open>main.py\<close> and \<open>util.py\<close>. \<open>ex_fnmatch\<close> knows the patterns used here.
\<close>

definition ex_fnmatch :: "string \<Rightarrow> string \<Rightarrow> bool" where
  "ex_fnmatch n p =
     ((p = ''.*'' \<and> prefix ''.'' n) \<or> (p = ''*.py'' \<and> suffix ''.py'' n) \<or> n = p)"

definition ex_os :: os_env where
  "ex_os =
     \<lparr>os_glob = (\<lambda>p r. if p = ''/p/main.py'' then [''/p/main.py'']
                        else if p = ''/p/*.py'' then [''/p/main.py'', ''/p/util.py'']
                        else []),
      os_fnmatch = ex_fnmatch,
      os_scandir = (\<lambda>p.
         if p = ''/p/pkg'' then
           Some [\<lparr>d_name = ''__init__.py'', d_is_dir = False, d_is_file = True\<rparr>,
                 \<lparr>d_name = ''m.py'', d_is_dir = False, d_is_file = True\<rparr>,
                 \<lparr>d_name = ''.git'', d_is_dir = True, d_is_file = False\<rparr>,
                 \<lparr>d_name = ''sub'', d_is_dir = True, d_is_file = False\<rparr>]
         else if p = ''/p/pkg/sub'' then
           Some [\<lparr>d_name = ''x.py'', d_is_dir = False, d_is_file = True\<rparr>]
         else None),
      os_exists = (\<lambda>p. False),
      os_makedirs = (\<lambda>p. True),
      os_normpath = (\<lambda>p. p),
      os_abspath = (\<lambda>p. p),
      os_relpath = (\<lambda>p start. if prefix (start @ ''/'') p then drop (length start + 1) p else p)\<rparr>"

text \<open>The same host once nothing can be scanned or created any more.\<close>

definition ex_os_off :: os_env where
  "ex_os_off = ex_os\<lparr>os_scandir := (\<lambda>p. None), os_makedirs := (\<lambda>p. False)\<rparr>"

text \<open>A project that owns the package \<open>/p/pkg\<close>, not yet loaded.\<close>

definition ex_pkg_state :: state where
  "ex_pkg_state =
     (project_init ''/w'')
       \<lparr>heap := [new_unit PackageK ''/p/pkg'' None ProjectParent],
        p_src := ''/p'', p_packages := [0]\<rparr>"

definition ex_loaded_once :: state where
  "ex_loaded_once = snd (package_load ex_os ex_pkg_state 0)"

definition ex_loaded_twice :: state where
  "ex_loaded_twice = snd (package_load ex_os ex_loaded_once 0)"

text \<open>
  One state grows into another when the heap and the lists of scripts, modules and
  packages are extended at the end only.
\<close>

definition grows :: "state \<Rightarrow> state \<Rightarrow> bool" where
  "grows s s' =
     (prefix (heap s) (heap s') \<and> prefix (p_scripts s) (p_scripts s')
      \<and> prefix (p_modules s) (p_modules s') \<and> prefix (p_packages s) (p_packages s'))"

text \<open>
  Input records: scripts \<open>main.py\<close>, modules \<open>*.py\<close> and the packages \<open>pkg\<close>,
  \<open>lib\<close> under the name \<open>core\<close> and a section; the script \<open>main.py\<close> with the
  module pattern \<open>main.py\<close> written twice; the one package \<open>pkg\<close>; a package whose
  directory does not exist; and a record without \<open>src\<close>. \<open>ex_project\<close>,
  \<open>ex_pkg_project\<close> and \<open>ex_missing_project\<close> are new projects after one \<open>load\<close>.
\<close>

definition ex_dup_data :: "string \<rightharpoonup> string" where
  "ex_dup_data = [''src'' \<mapsto> ''/p'', ''scripts'' \<mapsto> ''main.py'',
                  ''modules'' \<mapsto> ''main.py main.py'']"

definition ex_data :: "string \<rightharpoonup> string" where
  "ex_data = [''src'' \<mapsto> ''/p'', ''scripts'' \<mapsto> ''main.py'', ''modules'' \<mapsto> ''*.py'',
              ''packages'' \<mapsto> ''pkg lib@core @sect'']"

definition ex_project :: state where
  "ex_project = snd (project_load ex_os (project_init ''/w'') ex_data)"

definition ex_pkg_data :: "string \<rightharpoonup> string" where
  "ex_pkg_data = [''src'' \<mapsto> ''/p'', ''packages'' \<mapsto> ''pkg'']"

definition ex_pkg_project :: state where
  "ex_pkg_project = snd (project_load ex_os (project_init ''/w'') ex_pkg_data)"

definition ex_missing_data :: "string \<rightharpoonup> string" where
  "ex_missing_data = [''src'' \<mapsto> ''/p'', ''packages'' \<mapsto> ''missing'']"

definition ex_missing_project :: state where
  "ex_missing_project = snd (project_load ex_os (project_init ''/w'') ex_missing_data)"

definition ex_no_src :: "string \<rightharpoonup> string" where
  "ex_no_src = [''name'' \<mapsto> ''demo'']"

section \<open>Properties\<close>

subsection \<open>Auxiliary facts\<close>

lemma new_unit_sel [simp]:
  "u_kind (new_unit k p n par) = k"
  "u_parent (new_unit k p n par) = par"
  "u_path (new_unit k p n par) = p"
  "u_modules (new_unit k p n par) = None"
  "u_packages (new_unit k p n par) = None"
  by (simp_all add: new_unit_def)

lemma ex_names:
  "u_name (new_unit k ''/p/pkg'' None par) = ''pkg''"
  "u_name (new_unit k ''__init__.py'' None par) = ''__init__''"
  "u_name (new_unit k ''m.py'' None par) = ''m''"
  "u_name (new_unit k ''x.py'' None par) = ''x''"
  by (simp_all add: new_unit_def basename_def splitext_def rfind_char_def)

lemma ex_heap_pkg: "qualname ex_heap 0 = Some ''pkg''"
  by (subst qualname.simps) (simp add: ex_heap_def ex_names)

lemma split_char_nonempty: "split_char c s \<noteq> []"
  by (induction s) (auto split: list.splits)

lemma length_split_char: "length (split_char c s) = Suc (count_list s c)"
  by (induction s) (auto split: list.splits simp: split_char_nonempty)

lemma count_list_distinct: "distinct xs \<Longrightarrow> x \<in> set xs \<Longrightarrow> count_list xs x = 1"
  by (induction xs) auto

lemma unknown_vars_log_unknown_var:
  "unknown_vars (log_unknown_var s m v) =
     (if m @ '':'' @ v \<in> set (unknown_vars s) then unknown_vars s
      else unknown_vars s @ [m @ '':'' @ v])"
  by (simp add: log_unknown_var_def Let_def)

lemma log_vars_snoc: "log_vars s (calls @ [(m, v)]) = log_unknown_var (log_vars s calls) m v"
  by (simp add: log_vars_def)

lemma distinct_log_vars:
  "distinct (unknown_vars s) \<Longrightarrow> distinct (unknown_vars (log_vars s calls))"
proof (induction calls rule: rev_induct)
  case Nil
  then show ?case by (simp add: log_vars_def)
next
  case (snoc x xs)
  obtain m v where x: "x = (m, v)" by (cases x)
  from snoc show ?case
    unfolding x log_vars_snoc by (simp add: unknown_vars_log_unknown_var)
qed

lemma mem_log_vars:
  "(m, v) \<in> set calls \<Longrightarrow> m @ '':'' @ v \<in> set (unknown_vars (log_vars s calls))"
proof (induction calls rule: rev_induct)
  case Nil
  then show ?case by simp
next
  case (snoc x xs)
  obtain m' v' where x: "x = (m', v')" by (cases x)
  from snoc show ?case
    unfolding x log_vars_snoc by (auto simp: unknown_vars_log_unknown_var)
qed

lemma package_load_ok:
  assumes "package_load os s r = (None, s')"
  shows "\<exists>nf nd.
           is_package (heap s) r
         \<and> s' = s\<lparr>heap := heap s'\<rparr>
         \<and> length (heap s') = length (heap s) + nf + nd
         \<and> u_modules (heap s' ! r) = Some [length (heap s) ..< length (heap s) + nf]
         \<and> u_packages (heap s' ! r) =
             Some [length (heap s) + nf ..< length (heap s) + nf + nd]
         \<and> u_kind (heap s' ! r) = PackageK
         \<and> u_parent (heap s' ! r) = u_parent (heap s ! r)
         \<and> u_name (heap s' ! r) = u_name (heap s ! r)
         \<and> u_path (heap s' ! r) = u_path (heap s ! r)
         \<and> (\<forall>i < length (heap s). i \<noteq> r \<longrightarrow> heap s' ! i = heap s ! i)"
proof -
  from assms have pk: "is_package (heap s) r"
    by (auto simp: package_load_def split: if_splits)
  then have r: "r < length (heap s)" and k: "u_kind (heap s ! r) = PackageK"
    by (simp_all add: is_package_def)
  from assms pk obtain ap files dirs where
    sc: "scan_path os ap None GLOBAL_EXCLS = Inr (files, dirs)"
    and ab: "unit_abspath os (p_src s) (heap s) r = Some (Inr ap)"
    by (auto simp: package_load_def split: option.splits sum.splits)
  let ?h1 = "heap s @ map (\<lambda>x. new_unit ModuleK x None (UnitParent r)) files"
  let ?h2 = "?h1[r := (?h1 ! r)\<lparr>u_modules := Some [length (heap s) ..< length (heap s) + length files]\<rparr>]"
  let ?h3 = "?h2 @ map (\<lambda>x. new_unit PackageK x None (UnitParent r)) dirs"
  let ?h4 = "?h3[r := (?h3 ! r)\<lparr>u_packages := Some [length ?h2 ..< length ?h2 + length dirs]\<rparr>]"
  from assms pk sc ab have s': "s' = s\<lparr>heap := ?h4\<rparr>"
    by (simp add: package_load_def alloc_units_def Let_def)
  have h: "heap s' = ?h4" by (simp add: s')
  show ?thesis
  proof (rule exI [of _ "length files"], rule exI [of _ "length dirs"], intro conjI)
    show "is_package (heap s) r" by (rule pk)
    show "s' = s\<lparr>heap := heap s'\<rparr>" by (simp add: s')
    show "length (heap s') = length (heap s) + length files + length dirs"
      by (simp add: h)
    show "u_modules (heap s' ! r) = Some [length (heap s) ..< length (heap s) + length files]"
      using r by (simp add: h nth_append)
    show "u_packages (heap s' ! r) =
             Some [length (heap s) + length files ..< length (heap s) + length files + length dirs]"
      using r by (simp add: h nth_append)
    show "u_kind (heap s' ! r) = PackageK"
      using r k by (simp add: h nth_append)
    show "u_parent (heap s' ! r) = u_parent (heap s ! r)"
      using r by (simp add: h nth_append)
    show "u_name (heap s' ! r) = u_name (heap s ! r)"
      using r by (simp add: h nth_append)
    show "u_path (heap s' ! r) = u_path (heap s ! r)"
      using r by (simp add: h nth_append)
    show "\<forall>i < length (heap s). i \<noteq> r \<longrightarrow> heap s' ! i = heap s ! i"
      by (simp add: h nth_append)
  qed
qed

lemma package_load_is_package:
  "package_load os s r = (None, s') \<Longrightarrow> is_package (heap s') r"
  using package_load_ok [of os s r s'] by (auto simp: is_package_def)

lemma package_modules_ok:
  assumes "package_modules os s r = (Inr ms, s1)"
  shows "is_package (heap s1) r \<and> u_modules (heap s1 ! r) = Some ms
       \<and> (u_modules (heap s ! r) = None \<longrightarrow> package_load os s r = (None, s1))
       \<and> (u_modules (heap s ! r) \<noteq> None \<longrightarrow> s1 = s)"
  using assms
  by (auto simp: package_modules_def package_load_is_package
           split: if_splits option.splits prod.splits)

lemma package_packages_ok:
  assumes "package_packages os s r = (Inr ps, s1)"
  shows "is_package (heap s1) r \<and> u_packages (heap s1 ! r) = Some ps
       \<and> (u_packages (heap s ! r) = None \<longrightarrow> package_load os s r = (None, s1))
       \<and> (u_packages (heap s ! r) \<noteq> None \<longrightarrow> s1 = s)"
  using assms
  by (auto simp: package_packages_def package_load_is_package
           split: if_splits option.splits prod.splits)

lemma package_modules_loaded:
  "is_package (heap s) r \<Longrightarrow> u_modules (heap s ! r) = Some ms
     \<Longrightarrow> package_modules os s r = (Inr ms, s)"
  by (simp add: package_modules_def)

lemma package_packages_loaded:
  "is_package (heap s) r \<Longrightarrow> u_packages (heap s ! r) = Some ps
     \<Longrightarrow> package_packages os s r = (Inr ps, s)"
  by (simp add: package_packages_def)

lemma build_index_sound:
  "build_index h xs idx0 = Some idx \<Longrightarrow> idx qn = Some x
     \<Longrightarrow> (x \<in> set xs \<and> qualname h x = Some qn) \<or> idx0 qn = Some x"
proof (induction xs arbitrary: idx0)
  case Nil
  then show ?case by simp
next
  case (Cons y ys)
  from Cons.prems(1) obtain q where q: "qualname h y = Some q"
    and b: "build_index h ys (idx0(q \<mapsto> y)) = Some idx"
    by (auto split: option.splits)
  from Cons.IH [OF b Cons.prems(2)] q show ?case
    by (auto split: if_splits)
qed

lemma grows_refl [simp]: "grows s s"
  by (simp add: grows_def)

lemma grows_trans: "grows a b \<Longrightarrow> grows b c \<Longrightarrow> grows a c"
  by (auto simp: grows_def)

lemma grows_src [simp]: "grows s (s'\<lparr>p_src := x\<rparr>) = grows s s'"
  by (simp add: grows_def)

lemma grows_load_modules: "grows s (load_modules os s scripts modules)"
  by (simp add: grows_def load_modules_def alloc_units_def Let_def)

lemma grows_load_packages: "grows s (snd (load_packages src s items))"
proof (induction items arbitrary: s)
  case Nil
  then show ?case by simp
next
  case (Cons item items)
  show ?case
  proof (cases "find_char (CHR ''@'') item = 0")
    case True
    with Cons.IH [of s] show ?thesis by simp
  next
    case False
    show ?thesis
    proof (cases "if find_char (CHR ''@'') item = - 1 then Inr (item, basename item)
                 else (case split_char (CHR ''@'') item of
                         [path, pkgname] \<Rightarrow> Inr (path, pkgname)
                       | _ \<Rightarrow> Inl ValueError)")
      case (Inl e)
      with False show ?thesis by (simp add: Let_def)
    next
      case (Inr pn)
      obtain path pkgname where pn: "pn = (path, pkgname)" by (cases pn)
      let ?s1 = "s\<lparr>heap := heap s @ [new_unit PackageK (if \<not> isabs path then joinpath src path else path)
                                         (Some pkgname) ProjectParent],
                     p_packages := p_packages s @ [length (heap s)]\<rparr>"
      have "grows s ?s1" by (simp add: grows_def)
      from grows_trans [OF this Cons.IH [of ?s1]] False Inr pn show ?thesis
        by (simp add: Let_def alloc_units_def)
    qed
  qed
qed

lemma load_packages_error:
  "fst (load_packages src s items) = None \<or> fst (load_packages src s items) = Some ValueError"
proof (induction items arbitrary: s)
  case Nil
  then show ?case by simp
next
  case (Cons item items)
  show ?case
  proof (cases "find_char (CHR ''@'') item = 0")
    case True
    with Cons.IH [of s] show ?thesis by simp
  next
    case False
    show ?thesis
    proof (cases "if find_char (CHR ''@'') item = - 1 then Inr (item, basename item)
                 else (case split_char (CHR ''@'') item of
                         [path, pkgname] \<Rightarrow> Inr (path, pkgname)
                       | _ \<Rightarrow> Inl ValueError)")
      case (Inl e)
      then have "e = ValueError" by (auto split: if_splits list.splits)
      with Inl False show ?thesis by (simp add: Let_def)
    next
      case (Inr pn)
      obtain path pkgname where pn: "pn = (path, pkgname)" by (cases pn)
      from Cons.IH False Inr pn show ?thesis
        by (simp add: Let_def alloc_units_def)
    qed
  qed
qed

lemma scan_path_error: "scan_path os path incl excl = Inl e \<Longrightarrow> e = OSError"
  by (auto simp: scan_path_def Let_def split: option.splits)

lemma project_load_unfold:
  assumes mk: "os_makedirs os (joinpath (local_path s) ''project'')"
    and src: "data ''src'' = Some src"
  defines "excl \<equiv> vlist data ''excludes'' @ GLOBAL_EXCLS"
  defines "scripts \<equiv> concat (map (\<lambda>pat. search_item os src pat excl False) (vlist data ''scripts''))"
  defines "modules \<equiv> concat (map (\<lambda>pat. search_item os src pat excl False) (vlist data ''modules''))"
  defines "s2 \<equiv> s\<lparr>p_src := src,
                   heap := heap s @ map (\<lambda>x. new_unit ScriptK (os_relpath os x src) None ProjectParent) scripts,
                   p_scripts := p_scripts s @ [length (heap s) ..< length (heap s) + length scripts]\<rparr>"
  shows "project_load os s data =
     (if vlist data ''packages'' \<noteq> [] then
        (case load_packages src s2 (vlist data ''packages'') of
           (Some e, s3) \<Rightarrow> (Some e, s3)
         | (None, s3) \<Rightarrow> (None, load_modules os s3 scripts modules))
      else if modules = [] \<and> scripts = [] then
        (if os_exists os (joinpath src ''__init__.py'') then
           (None, load_modules os
              (s2\<lparr>heap := heap s2 @ [new_unit PackageK src
                        (Some (case data ''name'' of None \<Rightarrow> basename src
                               | Some n \<Rightarrow> if n \<noteq> [] then n else basename src)) ProjectParent],
                  p_packages := p_packages s2 @ [length (heap s2)]\<rparr>) scripts modules)
         else
           (case scan_path os src None excl of
              Inl e \<Rightarrow> (Some e, s2)
            | Inr (files, dirs) \<Rightarrow>
                (None, load_modules os
                   (s2\<lparr>heap := heap s2 @ map (\<lambda>x. new_unit PackageK x None ProjectParent) dirs,
                       p_packages := p_packages s2 @ [length (heap s2) ..< length (heap s2) + length dirs]\<rparr>)
                   scripts (modules @ map (\<lambda>x. joinpath src x) files))))
      else (None, load_modules os s2 scripts modules))"
proof -
  have "project_load os s data =
     (if vlist data ''packages'' \<noteq> [] then
        (case load_packages src s2 (vlist data ''packages'') of
           (Some e, s3) \<Rightarrow> (Some e, s3)
         | (None, s3) \<Rightarrow> (None, load_modules os s3 scripts modules))
      else if modules = [] \<and> scripts = [] then
        (if os_exists os (joinpath src ''__init__.py'') then
           (None, load_modules os
              (s2\<lparr>heap := heap s2 @ [new_unit PackageK src
                        (Some (case data ''name'' of None \<Rightarrow> basename src
                               | Some n \<Rightarrow> if n \<noteq> [] then n else basename src)) ProjectParent],
                  p_packages := p_packages s2 @ [length (heap s2)]\<rparr>) scripts modules)
         else
           (case scan_path os src None excl of
              Inl e \<Rightarrow> (Some e, s2)
            | Inr (files, dirs) \<Rightarrow>
                (None, load_modules os
                   (s2\<lparr>heap := heap s2 @ map (\<lambda>x. new_unit PackageK x None ProjectParent) dirs,
                       p_packages := p_packages s2 @ [length (heap s2) ..< length (heap s2) + length dirs]\<rparr>)
                   scripts (modules @ map (\<lambda>x. joinpath src x) files))))
      else (None, load_modules os s2 scripts modules))"
    unfolding project_load_def Let_def src option.case
    unfolding excl_def [symmetric]
    unfolding scripts_def [symmetric] modules_def [symmetric]
    using mk
    by (simp add: alloc_units_def relsrc_def s2_def split: sum.splits prod.splits)
  then show ?thesis .
qed


lemma project_load_some_src:
  assumes mk: "os_makedirs os (joinpath (local_path s) ''project'')"
    and src: "data ''src'' = Some src"
  shows "grows s (snd (project_load os s data)) \<and> fst (project_load os s data) \<noteq> Some KeyError"
proof -
  define excl where "excl = vlist data ''excludes'' @ GLOBAL_EXCLS"
  define scripts where
    "scripts = concat (map (\<lambda>pat. search_item os src pat excl False) (vlist data ''scripts''))"
  define modules where
    "modules = concat (map (\<lambda>pat. search_item os src pat excl False) (vlist data ''modules''))"
  define s2 where
    "s2 = s\<lparr>p_src := src,
            heap := heap s @ map (\<lambda>x. new_unit ScriptK (os_relpath os x src) None ProjectParent) scripts,
            p_scripts := p_scripts s @ [length (heap s) ..< length (heap s) + length scripts]\<rparr>"
  note eq = project_load_unfold [of os s data src, OF mk src, folded excl_def, folded scripts_def modules_def,
      folded s2_def]
  have g2: "grows s s2" by (simp add: grows_def s2_def)
  have lm: "grows s t \<Longrightarrow> grows s (load_modules os t sc ms)" for t sc ms
    using grows_load_modules grows_trans by blast
  have ap: "grows s (s2\<lparr>heap := heap s2 @ us, p_packages := p_packages s2 @ rs\<rparr>)" for us rs
    using g2 by (auto simp: grows_def)
  show ?thesis
  proof (cases "vlist data ''packages'' \<noteq> []")
    case True
    obtain e s3 where l: "load_packages src s2 (vlist data ''packages'') = (e, s3)"
      by (cases "load_packages src s2 (vlist data ''packages'')")
    from grows_load_packages [of s2 src "vlist data ''packages''"] l g2
    have g3: "grows s s3" using grows_trans by fastforce
    from load_packages_error [of src s2 "vlist data ''packages''"] l
    have e: "e = None \<or> e = Some ValueError" by simp
    from eq True l g3 lm [OF g3] e show ?thesis by (auto split: option.splits)
  next
    case False
    show ?thesis
    proof (cases "modules = [] \<and> scripts = []")
      case ms: True
      show ?thesis
      proof (cases "os_exists os (joinpath src ''__init__.py'')")
        case True
        with eq False ms lm [OF ap] show ?thesis by simp
      next
        case ex: False
        show ?thesis
        proof (cases "scan_path os src None excl")
          case (Inl e)
          with eq False ms ex g2 scan_path_error [OF Inl] show ?thesis by simp
        next
          case (Inr fd)
          obtain files dirs where "fd = (files, dirs)" by (cases fd)
          with Inr eq False ms ex lm [OF ap] show ?thesis by simp
        qed
      qed
    next
      case False
      with eq \<open>\<not> vlist data ''packages'' \<noteq> []\<close> lm [OF g2] show ?thesis by auto
    qed
  qed
qed

lemma grows_project_load: "grows s (snd (project_load os s data))"
proof (cases "os_makedirs os (joinpath (local_path s) ''project'')")
  case False
  then show ?thesis by (simp add: project_load_def)
next
  case mk: True
  show ?thesis
  proof (cases "data ''src''")
    case None
    with mk show ?thesis by (simp add: project_load_def)
  next
    case (Some src)
    from project_load_some_src [of os s data src, OF mk Some] show ?thesis by simp
  qed
qed

lemma fold_remove1_distinct:
  "distinct ms \<Longrightarrow> distinct (fold remove1 xs ms) \<and> set (fold remove1 xs ms) = set ms - set xs"
proof (induction xs arbitrary: ms)
  case Nil
  then show ?case by simp
next
  case (Cons x xs)
  from Cons.IH [of "remove1 x ms"] Cons.prems show ?case
    by (auto simp: set_remove1_eq)
qed

lemma reconcile_distinct:
  "distinct modules \<Longrightarrow> set (reconcile scripts modules) = set modules - set scripts"
  by (auto simp: reconcile_def fold_remove1_distinct)

lemma upt_Suc_shift: "[n] @ [Suc n ..< Suc n + k] = [n ..< n + Suc k]"
  by (simp del: upt_Suc add: upt_conv_Cons)

lemma load_modules_appended:
  "p_src t = src \<Longrightarrow>
   load_modules os t scripts ms =
     t\<lparr>heap := heap t @ map (\<lambda>x. new_unit ModuleK (os_relpath os x src) None ProjectParent)
                           (reconcile scripts ms),
       p_modules := p_modules t @
          [length (heap t) ..< length (heap t) + length (reconcile scripts ms)]\<rparr>"
  by (simp add: load_modules_def alloc_units_def relsrc_def)

lemma load_packages_complete:
  "package_units src items = Inr us \<Longrightarrow>
   load_packages src s items =
     (None, s\<lparr>heap := heap s @ us,
              p_packages := p_packages s @ [length (heap s) ..< length (heap s) + length us]\<rparr>)"
proof (induction items arbitrary: s us)
  case Nil
  then show ?case by simp
next
  case (Cons item items)
  show ?case
  proof (cases "find_char (CHR ''@'') item = 0")
    case True
    with Cons.prems have "package_units src items = Inr us" by simp
    from Cons.IH [OF this] True show ?thesis by simp
  next
    case False
    show ?thesis
    proof (cases "if find_char (CHR ''@'') item = - 1 then Inr (item, basename item)
                 else (case split_char (CHR ''@'') item of
                         [path, pkgname] \<Rightarrow> Inr (path, pkgname)
                       | _ \<Rightarrow> Inl ValueError)")
      case (Inl e)
      with False Cons.prems show ?thesis by (simp add: Let_def)
    next
      case (Inr pn)
      obtain path pkgname where pn: "pn = (path, pkgname)" by (cases pn)
      let ?u = "new_unit PackageK (if \<not> isabs path then joinpath src path else path)
                  (Some pkgname) ProjectParent"
      let ?s1 = "s\<lparr>heap := heap s @ [?u], p_packages := p_packages s @ [length (heap s)]\<rparr>"
      from Cons.prems False Inr pn obtain us' where
        us': "package_units src items = Inr us'" and us: "us = ?u # us'"
        by (auto simp: Let_def split: sum.splits)
      have step: "load_packages src s (item # items) = load_packages src ?s1 items"
        using False Inr pn by (simp add: Let_def alloc_units_def)
      have "?s1\<lparr>heap := heap ?s1 @ us',
                 p_packages := p_packages ?s1 @ [length (heap ?s1) ..< length (heap ?s1) + length us']\<rparr>
            = s\<lparr>heap := heap s @ us,
                 p_packages := p_packages s @ [length (heap s) ..< length (heap s) + length us]\<rparr>"
        unfolding us using upt_Suc_shift [of "length (heap s)" "length us'"]
        by (simp del: upt_Suc)
      with Cons.IH [OF us', of ?s1] step show ?thesis by simp
    qed
  qed
qed

lemma load_packages_fails:
  "package_units src items = Inl e \<Longrightarrow> fst (load_packages src s items) = Some e"
proof (induction items arbitrary: s)
  case Nil
  then show ?case by simp
next
  case (Cons item items)
  show ?case
  proof (cases "find_char (CHR ''@'') item = 0")
    case True
    with Cons show ?thesis by simp
  next
    case False
    show ?thesis
    proof (cases "if find_char (CHR ''@'') item = - 1 then Inr (item, basename item)
                 else (case split_char (CHR ''@'') item of
                         [path, pkgname] \<Rightarrow> Inr (path, pkgname)
                       | _ \<Rightarrow> Inl ValueError)")
      case (Inl e')
      with False Cons.prems show ?thesis by (simp add: Let_def)
    next
      case (Inr pn)
      obtain path pkgname where pn: "pn = (path, pkgname)" by (cases pn)
      from Cons.prems False Inr pn have "package_units src items = Inl e"
        by (auto simp: Let_def split: sum.splits)
      from Cons.IH [OF this] False Inr pn show ?thesis
        by (simp add: Let_def alloc_units_def)
    qed
  qed
qed


lemma project_load_exact:
  assumes mk: "os_makedirs os (joinpath (local_path s) ''project'')"
    and src: "data ''src'' = Some src"
  shows "case discovered os src data of
           Inr (S, P, M) \<Rightarrow> project_load os s data = (None, (appended s S P M)\<lparr>p_src := src\<rparr>)
         | Inl e \<Rightarrow> fst (project_load os s data) = Some e"
proof -
  define excl where "excl = vlist data ''excludes'' @ GLOBAL_EXCLS"
  define scripts where
    "scripts = concat (map (\<lambda>pat. search_item os src pat excl False) (vlist data ''scripts''))"
  define modules where
    "modules = concat (map (\<lambda>pat. search_item os src pat excl False) (vlist data ''modules''))"
  define s2 where
    "s2 = s\<lparr>p_src := src,
            heap := heap s @ map (\<lambda>x. new_unit ScriptK (os_relpath os x src) None ProjectParent) scripts,
            p_scripts := p_scripts s @ [length (heap s) ..< length (heap s) + length scripts]\<rparr>"
  define S where "S = map (\<lambda>x. new_unit ScriptK (os_relpath os x src) None ProjectParent) scripts"
  define NM where "NM = (\<lambda>ms. map (\<lambda>x. new_unit ModuleK (os_relpath os x src) None ProjectParent)
                                 (reconcile scripts ms))"
  note eq = project_load_unfold [of os s data src, OF mk src, folded excl_def,
      folded scripts_def modules_def, folded s2_def]
  have d: "discovered os src data =
     (if vlist data ''packages'' \<noteq> [] then
           (case package_units src (vlist data ''packages'') of
              Inl e \<Rightarrow> Inl e
            | Inr pkgs \<Rightarrow> Inr (S, pkgs, NM modules))
         else if modules = [] \<and> scripts = [] then
           (if os_exists os (joinpath src ''__init__.py'') then
              Inr (S,
                   [new_unit PackageK src
                      (Some (case data ''name'' of
                               None \<Rightarrow> basename src
                             | Some n \<Rightarrow> if n \<noteq> [] then n else basename src))
                      ProjectParent],
                   NM modules)
            else
              (case scan_path os src None excl of
                 Inl e \<Rightarrow> Inl e
               | Inr (files, dirs) \<Rightarrow>
                   Inr (S,
                        map (\<lambda>x. new_unit PackageK x None ProjectParent) dirs,
                        NM (modules @ map (\<lambda>x. joinpath src x) files))))
         else Inr (S, [], NM modules))"
    unfolding discovered_def Let_def
    unfolding excl_def [symmetric]
    unfolding scripts_def [symmetric] modules_def [symmetric]
    unfolding S_def [symmetric] NM_def
    by (rule refl)
  have src2: "p_src s2 = src" by (simp add: s2_def)
  have fin: "load_modules os (s2\<lparr>heap := heap s2 @ P, p_packages := p_packages s2 @
                 [length (heap s2) ..< length (heap s2) + length P]\<rparr>) scripts ms
             = (appended s S P (NM ms))\<lparr>p_src := src\<rparr>" for P ms
    by (subst load_modules_appended [where src = src])
       (simp_all add: s2_def appended_def S_def NM_def add.assoc)
  have fin0: "load_modules os s2 scripts ms = (appended s S [] (NM ms))\<lparr>p_src := src\<rparr>" for ms
    by (subst load_modules_appended [where src = src])
       (simp_all add: s2_def appended_def S_def NM_def)
  show ?thesis
  proof (cases "vlist data ''packages'' \<noteq> []")
    case True
    show ?thesis
    proof (cases "package_units src (vlist data ''packages'')")
      case (Inl e)
      from load_packages_fails [OF Inl, of s2] obtain s3 where
        "load_packages src s2 (vlist data ''packages'') = (Some e, s3)"
        by (cases "load_packages src s2 (vlist data ''packages'')") auto
      with eq True have "fst (project_load os s data) = Some e" by simp
      with d True Inl show ?thesis by simp
    next
      case (Inr us)
      from load_packages_complete [OF Inr, of s2] eq True fin [of us modules]
      have "project_load os s data = (None, (appended s S us (NM modules))\<lparr>p_src := src\<rparr>)"
        by simp
      with d True Inr show ?thesis by simp
    qed
  next
    case np: False
    show ?thesis
    proof (cases "modules = [] \<and> scripts = []")
      case ms: True
      show ?thesis
      proof (cases "os_exists os (joinpath src ''__init__.py'')")
        case True
        let ?P = "[new_unit PackageK src
                      (Some (case data ''name'' of
                               None \<Rightarrow> basename src
                             | Some n \<Rightarrow> if n \<noteq> [] then n else basename src))
                      ProjectParent]"
        from eq np ms True fin [of ?P modules]
        have "project_load os s data = (None, (appended s S ?P (NM modules))\<lparr>p_src := src\<rparr>)"
          by simp
        with d np ms True show ?thesis by simp
      next
        case ex: False
        show ?thesis
        proof (cases "scan_path os src None excl")
          case (Inl e)
          with eq np ms ex have "fst (project_load os s data) = Some e" by simp
          with d np ms ex Inl show ?thesis by simp
        next
          case (Inr fd)
          obtain files dirs where fd: "fd = (files, dirs)" by (cases fd)
          let ?P = "map (\<lambda>x. new_unit PackageK x None ProjectParent) dirs"
          let ?ms = "modules @ map (\<lambda>x. joinpath src x) files"
          from eq np ms ex Inr fd fin [of ?P ?ms]
          have "project_load os s data = (None, (appended s S ?P (NM ?ms))\<lparr>p_src := src\<rparr>)"
            by simp
          with d np ms ex Inr fd show ?thesis by simp
        qed
      qed
    next
      case False
      from eq np False fin0 [of modules]
      have "project_load os s data = (None, (appended s S [] (NM modules))\<lparr>p_src := src\<rparr>)"
        by auto
      with d np False show ?thesis by auto
    qed
  qed
qed

lemma project_load_discovered:
  assumes "project_load os s data = (None, s')"
  shows "\<exists>src S P M. data ''src'' = Some src \<and> discovered os src data = Inr (S, P, M)
           \<and> s' = (appended s S P M)\<lparr>p_src := src\<rparr>"
proof -
  from assms have mk: "os_makedirs os (joinpath (local_path s) ''project'')"
    by (auto simp: project_load_def split: if_splits)
  from assms mk obtain src where src: "data ''src'' = Some src"
    by (cases "data ''src''") (auto simp: project_load_def)
  show ?thesis
  proof (cases "discovered os src data")
    case (Inl e)
    with project_load_exact [of os s data src, OF mk src] assms show ?thesis by simp
  next
    case (Inr spm)
    obtain S P M where "spm = (S, P, M)" by (cases spm)
    with Inr project_load_exact [of os s data src, OF mk src] assms src show ?thesis by auto
  qed
qed

lemma build_index_total:
  "\<forall>x \<in> set xs. qualname h x \<noteq> None \<Longrightarrow> \<exists>idx. build_index h xs idx0 = Some idx"
  by (induction xs arbitrary: idx0) auto

lemma build_index_fails:
  "\<exists>x \<in> set xs. qualname h x = None \<Longrightarrow> build_index h xs idx0 = None"
  by (induction xs arbitrary: idx0) (auto split: option.splits)

lemma build_index_keeps:
  "build_index h xs idx0 = Some idx \<Longrightarrow> idx0 q \<noteq> None \<Longrightarrow> idx q \<noteq> None"
proof (induction xs arbitrary: idx0)
  case Nil
  then show ?case by simp
next
  case (Cons y ys)
  from Cons.prems(1) obtain qy where qy: "qualname h y = Some qy"
    and b: "build_index h ys (idx0(qy \<mapsto> y)) = Some idx"
    by (auto split: option.splits)
  from Cons.prems(2) have "(idx0(qy \<mapsto> y)) q \<noteq> None" by simp
  from Cons.IH [OF b this] show ?case .
qed

lemma build_index_complete:
  "build_index h xs idx0 = Some idx \<Longrightarrow> x \<in> set xs \<Longrightarrow> qualname h x = Some q
     \<Longrightarrow> idx q \<noteq> None"
proof (induction xs arbitrary: idx0)
  case Nil
  then show ?case by simp
next
  case (Cons y ys)
  from Cons.prems(1) obtain qy where qy: "qualname h y = Some qy"
    and b: "build_index h ys (idx0(qy \<mapsto> y)) = Some idx"
    by (auto split: option.splits)
  show ?case
  proof (cases "x = y")
    case True
    with qy Cons.prems(3) have "(idx0(qy \<mapsto> y)) q \<noteq> None" by simp
    from build_index_keeps [OF b this] show ?thesis .
  next
    case False
    with Cons.prems(2) have "x \<in> set ys" by simp
    from Cons.IH [OF b this Cons.prems(3)] show ?thesis .
  qed
qed

lemma iter_each_mono:
  assumes "\<And>t p ys t'. f t p = (Inr ys, t') \<Longrightarrow> g t p = (Inr ys, t')"
  shows "iter_each f s ps = (Inr xs, s') \<Longrightarrow> iter_each g s ps = (Inr xs, s')"
proof (induction ps arbitrary: s xs s')
  case Nil
  then show ?case by simp
next
  case (Cons p ps)
  from Cons.prems obtain ys s1 zs where
    f: "f s p = (Inr ys, s1)" and r: "iter_each f s1 ps = (Inr zs, s')" and xs: "xs = ys @ zs"
    by (auto split: prod.splits sum.splits)
  from assms [OF f] Cons.IH [OF r] xs show ?case by simp
qed

lemma package_iter_module_mono:
  "package_iter_module n os s r = (Inr xs, s') \<Longrightarrow> n \<le> m
     \<Longrightarrow> package_iter_module m os s r = (Inr xs, s')"
proof (induction n arbitrary: m s r xs s')
  case 0
  then show ?case by simp
next
  case (Suc n)
  from Suc.prems(2) obtain m' where m: "m = Suc m'" and le: "n \<le> m'"
    by (cases m) auto
  have step: "iter_each (\<lambda>s' p. package_iter_module n os s' p) t ps = (Inr ys, t')
     \<Longrightarrow> iter_each (\<lambda>s' p. package_iter_module m' os s' p) t ps = (Inr ys, t')" for t ps ys t'
    by (rule iter_each_mono [where f = "\<lambda>s' p. package_iter_module n os s' p"])
       (auto intro: Suc.IH [OF _ le])
  from Suc.prems(1) show ?case
    unfolding m
    by (auto simp: Let_def split: if_splits prod.splits option.splits sum.splits
             dest: step)
qed

lemma project_iter_module_mono:
  "project_iter_module n os s = (Inr xs, s') \<Longrightarrow> n \<le> m
     \<Longrightarrow> project_iter_module m os s = (Inr xs, s')"
proof -
  assume a: "project_iter_module n os s = (Inr xs, s')" and le: "n \<le> m"
  have step: "iter_each (\<lambda>s' p. package_iter_module n os s' p) t ps = (Inr ys, t')
     \<Longrightarrow> iter_each (\<lambda>s' p. package_iter_module m os s' p) t ps = (Inr ys, t')" for t ps ys t'
    by (rule iter_each_mono [where f = "\<lambda>s' p. package_iter_module n os s' p"])
       (auto intro: package_iter_module_mono [OF _ le])
  from a show ?thesis
    by (auto simp: project_iter_module_def split: prod.splits sum.splits if_splits dest: step)
qed

subsection \<open>Qualified names\<close>

text \<open>
  Claim C1, as the code has it. For a unit whose parent is another unit, \<open>qualname\<close> is
  the parent's \<open>qualname\<close>, then a dot and \<open>name\<close> when \<open>name\<close> is not empty, and the
  parent's \<open>qualname\<close> alone when \<open>name\<close> is empty; a unit whose \<open>_name\<close> is
  \<open>__init__\<close> has the empty \<open>name\<close>. For a unit whose parent is the \<open>Project\<close> or
  \<open>None\<close>, \<open>qualname\<close> is the stored \<open>_name\<close>, which is not the \<open>name\<close> property.
\<close>

theorem qualname_by_parent:
  assumes "r < length h"
  shows "(\<forall>p pq. u_parent (h ! r) = UnitParent p \<and> qualname h p = Some pq \<longrightarrow>
            qualname h r =
              Some (if unit_name (h ! r) \<noteq> [] then pq @ ''.'' @ unit_name (h ! r) else pq))
       \<and> (u_parent (h ! r) = ProjectParent \<or> u_parent (h ! r) = NoParent \<longrightarrow>
            qualname h r = Some (u_name (h ! r)))
       \<and> (u_name (h ! r) = ''__init__'' \<longrightarrow> unit_name (h ! r) = [])"
proof (intro conjI allI impI)
  fix p pq
  assume "u_parent (h ! r) = UnitParent p \<and> qualname h p = Some pq"
  with assms show "qualname h r =
      Some (if unit_name (h ! r) \<noteq> [] then pq @ ''.'' @ unit_name (h ! r) else pq)"
    by (subst qualname.simps) simp
next
  assume "u_parent (h ! r) = ProjectParent \<or> u_parent (h ! r) = NoParent"
  with assms show "qualname h r = Some (u_name (h ! r))"
    by (subst qualname.simps) auto
next
  assume "u_name (h ! r) = ''__init__''"
  then show "unit_name (h ! r) = []" by (simp add: unit_name_def)
qed

text \<open>
  In \<open>ex_heap\<close> the module \<open>pkg/__init__\<close> has the qualname \<open>pkg\<close> of its package and
  the module \<open>pkg/m\<close> has \<open>pkg.m\<close>.
\<close>

theorem qualname_by_parent_witness:
  "qualname ex_heap 1 = Some ''pkg'' \<and> qualname ex_heap 2 = Some ''pkg.m''
   \<and> unit_name (ex_heap ! 1) = []"
proof -
  have len: "1 < length ex_heap" "2 < length ex_heap" by (simp_all add: ex_heap_def)
  have p1: "u_parent (ex_heap ! 1) = UnitParent 0 \<and> qualname ex_heap 0 = Some ''pkg''"
    using ex_heap_pkg by (simp add: ex_heap_def)
  have p2: "u_parent (ex_heap ! 2) = UnitParent 0 \<and> qualname ex_heap 0 = Some ''pkg''"
    using ex_heap_pkg by (simp add: ex_heap_def)
  have n1: "u_name (ex_heap ! 1) = ''__init__''" by (simp add: ex_heap_def ex_names)
  have n2: "unit_name (ex_heap ! 2) = ''m''" by (simp add: ex_heap_def ex_names unit_name_def)
  note t1 = qualname_by_parent [OF len(1)]
  note t2 = qualname_by_parent [OF len(2)]
  from t1 p1 have "qualname ex_heap 1 =
      Some (if unit_name (ex_heap ! 1) \<noteq> [] then ''pkg'' @ ''.'' @ unit_name (ex_heap ! 1)
            else ''pkg'')"
    by blast
  moreover from t1 n1 have "unit_name (ex_heap ! 1) = []" by blast
  ultimately have a: "qualname ex_heap 1 = Some ''pkg''" "unit_name (ex_heap ! 1) = []"
    by simp_all
  from t2 p2 have "qualname ex_heap 2 =
      Some (if unit_name (ex_heap ! 2) \<noteq> [] then ''pkg'' @ ''.'' @ unit_name (ex_heap ! 2)
            else ''pkg'')"
    by blast
  with n2 have b: "qualname ex_heap 2 = Some ''pkg.m''" by simp
  from a b show ?thesis by simp
qed

text \<open>
  Claim C1 as stated fails at the top level. The module \<open>__init__\<close> owned by the
  \<open>Project\<close> has the empty \<open>name\<close> and the qualname \<open>__init__\<close>, and the module
  \<open>x\<close> without a parent has the qualname \<open>x\<close>: neither is built from a qualname of
  the parent, which has none.
\<close>

theorem qualname_top_level_counterexample:
  "unit_name (ex_heap ! 3) = [] \<and> u_parent (ex_heap ! 3) = ProjectParent
   \<and> qualname ex_heap 3 = Some ''__init__''
   \<and> qualname ex_heap 3 \<noteq> parent_qualname ex_heap 3
   \<and> u_parent (ex_heap ! 4) = NoParent
   \<and> qualname ex_heap 4 = Some ''x''
   \<and> qualname ex_heap 4 \<noteq> parent_qualname ex_heap 4"
proof -
  have "qualname ex_heap 3 = Some ''__init__''"
    by (subst qualname.simps) (simp add: ex_heap_def ex_names)
  moreover have "qualname ex_heap 4 = Some ''x''"
    by (subst qualname.simps) (simp add: ex_heap_def ex_names)
  ultimately show ?thesis
    by (simp add: parent_qualname_def ex_heap_def ex_names unit_name_def)
qed

subsection \<open>Diagnostic logs\<close>

text \<open>
  Claim C6. After any sequence of calls of \<open>log_unknown_var\<close> on a new project,
  \<open>unknown_vars\<close> has no duplicates; a key that was logged occurs exactly once; and a
  second call with the same module and variable changes nothing and leaves exactly one
  entry \<open>module:var\<close>.
\<close>

theorem log_unknown_var_no_duplicates:
  "distinct (unknown_vars (log_vars (project_init lp) calls))
   \<and> ((m, v) \<in> set calls \<longrightarrow>
        count_list (unknown_vars (log_vars (project_init lp) calls)) (m @ '':'' @ v) = 1)
   \<and> unknown_vars (log_unknown_var (log_unknown_var (log_vars (project_init lp) calls) m v) m v)
       = unknown_vars (log_unknown_var (log_vars (project_init lp) calls) m v)
   \<and> count_list
        (unknown_vars (log_unknown_var (log_unknown_var (log_vars (project_init lp) calls) m v) m v))
        (m @ '':'' @ v) = 1"
proof -
  let ?s = "log_vars (project_init lp) calls"
  have d: "distinct (unknown_vars ?s)"
    by (rule distinct_log_vars) (simp add: project_init_def)
  have c: "(m, v) \<in> set calls \<longrightarrow> count_list (unknown_vars ?s) (m @ '':'' @ v) = 1"
    using d mem_log_vars [of m v calls "project_init lp"]
    by (simp add: count_list_distinct)
  have t: "unknown_vars (log_unknown_var (log_unknown_var ?s m v) m v)
             = unknown_vars (log_unknown_var ?s m v)"
    by (simp add: unknown_vars_log_unknown_var)
  have d1: "distinct (unknown_vars (log_unknown_var ?s m v))"
    using d by (simp add: unknown_vars_log_unknown_var)
  have "m @ '':'' @ v \<in> set (unknown_vars (log_unknown_var ?s m v))"
    by (simp add: unknown_vars_log_unknown_var)
  with d1 have "count_list (unknown_vars (log_unknown_var ?s m v)) (m @ '':'' @ v) = 1"
    by (simp add: count_list_distinct)
  with d c t show ?thesis by simp
qed

text \<open>
  Logging \<open>a:x\<close>, \<open>b:y\<close> and \<open>a:x\<close> again leaves \<open>a:x\<close> once.
\<close>

theorem log_unknown_var_no_duplicates_witness:
  "(''a'', ''x'') \<in> set [(''a'', ''x''), (''b'', ''y''), (''a'', ''x'')]
   \<and> count_list
        (unknown_vars (log_vars (project_init ''/w'') [(''a'', ''x''), (''b'', ''y''), (''a'', ''x'')]))
        ''a:x'' = 1"
proof -
  have i: "(''a'', ''x'') \<in> set [(''a'', ''x''), (''b'', ''y''), (''a'', ''x'')]" by simp
  from log_unknown_var_no_duplicates
         [of "''/w''" "[(''a'', ''x''), (''b'', ''y''), (''a'', ''x'')]" "''a''" "''x''"] i
  have "count_list
          (unknown_vars (log_vars (project_init ''/w'') [(''a'', ''x''), (''b'', ''y''), (''a'', ''x'')]))
          (''a'' @ '':'' @ ''x'') = 1"
    by blast
  with i show ?thesis by simp
qed

text \<open>
  Claim C10. A string with fewer than two colons splits into fewer than three fields,
  and \<open>log_unknown_call\<close> raises \<open>IndexError\<close> at \<open>fields[2]\<close>, leaving every log as
  it was.
\<close>

theorem log_unknown_call_index_error:
  assumes "count_list func (CHR '':'') < 2"
  shows "log_unknown_call s (StrKey func) = (Some IndexError, s)"
  using assms by (simp add: length_split_char)

text \<open>The key \<open>m:f.g\<close> has one colon.\<close>

theorem log_unknown_call_index_error_witness:
  "count_list ''m:f.g'' (CHR '':'') < 2
   \<and> log_unknown_call (project_init ''/w'') (StrKey ''m:f.g'')
       = (Some IndexError, project_init ''/w'')"
proof -
  have c: "count_list ''m:f.g'' (CHR '':'') < 2" by simp
  from log_unknown_call_index_error [OF c] c show ?thesis by blast
qed

subsection \<open>Packages\<close>

text \<open>
  Claim C5. When the \<open>modules\<close> accessor of a package returns, a second call returns
  the same references and changes nothing, whatever the file system has become; likewise
  for \<open>packages\<close>. When the call of one accessor did the load, the other accessor then
  returns the children that load built, again without any change of the state, so
  without a scan.
\<close>

theorem package_accessors_idempotent:
  "(package_modules os s r = (Inr ms, s1) \<longrightarrow> package_modules os' s1 r = (Inr ms, s1))
   \<and> (package_packages os s r = (Inr ps, s2) \<longrightarrow> package_packages os' s2 r = (Inr ps, s2))
   \<and> (package_modules os s r = (Inr ms, s1) \<and> u_modules (heap s ! r) = None \<longrightarrow>
        (\<exists>ps'. u_packages (heap s1 ! r) = Some ps' \<and> package_packages os' s1 r = (Inr ps', s1)))
   \<and> (package_packages os s r = (Inr ps, s2) \<and> u_packages (heap s ! r) = None \<longrightarrow>
        (\<exists>ms'. u_modules (heap s2 ! r) = Some ms' \<and> package_modules os' s2 r = (Inr ms', s2)))"
proof (intro conjI impI)
  assume "package_modules os s r = (Inr ms, s1)"
  from package_modules_ok [OF this] show "package_modules os' s1 r = (Inr ms, s1)"
    by (simp add: package_modules_loaded)
next
  assume "package_packages os s r = (Inr ps, s2)"
  from package_packages_ok [OF this] show "package_packages os' s2 r = (Inr ps, s2)"
    by (simp add: package_packages_loaded)
next
  assume a: "package_modules os s r = (Inr ms, s1) \<and> u_modules (heap s ! r) = None"
  with package_modules_ok [of os s r ms s1]
  have l: "package_load os s r = (None, s1)" and p: "is_package (heap s1) r" by simp_all
  from package_load_ok [OF l] obtain ps' where "u_packages (heap s1 ! r) = Some ps'" by blast
  with p show "\<exists>ps'. u_packages (heap s1 ! r) = Some ps' \<and> package_packages os' s1 r = (Inr ps', s1)"
    by (simp add: package_packages_loaded)
next
  assume a: "package_packages os s r = (Inr ps, s2) \<and> u_packages (heap s ! r) = None"
  with package_packages_ok [of os s r ps s2]
  have l: "package_load os s r = (None, s2)" and p: "is_package (heap s2) r" by simp_all
  from package_load_ok [OF l] obtain ms' where "u_modules (heap s2 ! r) = Some ms'" by blast
  with p show "\<exists>ms'. u_modules (heap s2 ! r) = Some ms' \<and> package_modules os' s2 r = (Inr ms', s2)"
    by (simp add: package_modules_loaded)
qed

text \<open>
  On \<open>ex_pkg_state\<close> the first call of \<open>modules\<close> loads the package; afterwards both
  accessors answer from the loaded fields on a host where no scan can succeed.
\<close>

theorem package_accessors_idempotent_witness:
  "fst (package_modules ex_os ex_pkg_state 0) = Inr [1, 2]
   \<and> package_modules ex_os_off (snd (package_modules ex_os ex_pkg_state 0)) 0
       = (Inr [1, 2], snd (package_modules ex_os ex_pkg_state 0))
   \<and> package_packages ex_os_off (snd (package_modules ex_os ex_pkg_state 0)) 0
       = (Inr [3], snd (package_modules ex_os ex_pkg_state 0))"
proof -
  let ?S = "snd (package_modules ex_os ex_pkg_state 0)"
  have f: "fst (package_modules ex_os ex_pkg_state 0) = Inr [1, 2]" by code_simp
  then have a: "package_modules ex_os ex_pkg_state 0 = (Inr [1, 2], ?S)"
    by (simp add: prod_eq_iff)
  have n: "u_modules (heap ex_pkg_state ! 0) = None" by code_simp
  have p: "u_packages (heap ?S ! 0) = Some [3]" by code_simp
  note t = package_accessors_idempotent
             [of ex_os ex_pkg_state 0 "[1, 2]" ?S ex_os_off "[]" ex_pkg_state]
  from t a have b: "package_modules ex_os_off ?S 0 = (Inr [1, 2], ?S)" by blast
  from t a n obtain ps' where
    "u_packages (heap ?S ! 0) = Some ps'" "package_packages ex_os_off ?S 0 = (Inr ps', ?S)"
    by blast
  with p have c: "package_packages ex_os_off ?S 0 = (Inr [3], ?S)" by simp
  from f b c show ?thesis by simp
qed

text \<open>
  Claim C2, as the code has it. \<open>Package.load\<close> has no guard: every call that returns
  assigns \<open>_modules\<close> and \<open>_packages\<close> lists of objects that did not exist before the
  call. The test for "not yet loaded" is made by the accessors: on a package whose field
  is set, \<open>modules\<close> and \<open>packages\<close> return it and leave the state as it is.
\<close>

theorem package_load_rebuilds:
  "(package_load os s r = (None, s') \<longrightarrow>
      (\<exists>ms ps. u_modules (heap s' ! r) = Some ms \<and> u_packages (heap s' ! r) = Some ps
         \<and> (\<forall>x \<in> set (ms @ ps). length (heap s) \<le> x \<and> x < length (heap s'))))
   \<and> (is_package (heap s) r \<and> u_modules (heap s ! r) = Some ms0 \<longrightarrow>
        package_modules os s r = (Inr ms0, s))
   \<and> (is_package (heap s) r \<and> u_packages (heap s ! r) = Some ps0 \<longrightarrow>
        package_packages os s r = (Inr ps0, s))"
proof (intro conjI impI)
  assume "package_load os s r = (None, s')"
  from package_load_ok [OF this] obtain nf nd where
    l: "length (heap s') = length (heap s) + nf + nd"
    and m: "u_modules (heap s' ! r) = Some [length (heap s) ..< length (heap s) + nf]"
    and p: "u_packages (heap s' ! r) = Some [length (heap s) + nf ..< length (heap s) + nf + nd]"
    by blast
  show "\<exists>ms ps. u_modules (heap s' ! r) = Some ms \<and> u_packages (heap s' ! r) = Some ps
         \<and> (\<forall>x \<in> set (ms @ ps). length (heap s) \<le> x \<and> x < length (heap s'))"
    using l m p by auto
next
  assume "is_package (heap s) r \<and> u_modules (heap s ! r) = Some ms0"
  then show "package_modules os s r = (Inr ms0, s)" by (simp add: package_modules_loaded)
next
  assume "is_package (heap s) r \<and> u_packages (heap s ! r) = Some ps0"
  then show "package_packages os s r = (Inr ps0, s)" by (simp add: package_packages_loaded)
qed

text \<open>The first load of \<open>ex_pkg_state\<close>, and the accessor on the loaded package.\<close>

theorem package_load_rebuilds_witness:
  "fst (package_load ex_os ex_pkg_state 0) = None
   \<and> (\<exists>ms ps. u_modules (heap ex_loaded_once ! 0) = Some ms
         \<and> u_packages (heap ex_loaded_once ! 0) = Some ps
         \<and> (\<forall>x \<in> set (ms @ ps). length (heap ex_pkg_state) \<le> x \<and> x < length (heap ex_loaded_once)))
   \<and> package_modules ex_os_off ex_loaded_once 0 = (Inr [1, 2], ex_loaded_once)"
proof -
  have f: "fst (package_load ex_os ex_pkg_state 0) = None" by code_simp
  then have a: "package_load ex_os ex_pkg_state 0 = (None, ex_loaded_once)"
    by (simp add: prod_eq_iff ex_loaded_once_def)
  have k: "is_package (heap ex_loaded_once) 0 \<and> u_modules (heap ex_loaded_once ! 0) = Some [1, 2]"
    unfolding ex_loaded_once_def by code_simp
  note t1 = package_load_rebuilds [of ex_os ex_pkg_state 0 ex_loaded_once]
  note t2 = package_load_rebuilds [of ex_os_off ex_loaded_once 0 ex_loaded_once "[1, 2]"]
  from t1 a have "\<exists>ms ps. u_modules (heap ex_loaded_once ! 0) = Some ms
         \<and> u_packages (heap ex_loaded_once ! 0) = Some ps
         \<and> (\<forall>x \<in> set (ms @ ps). length (heap ex_pkg_state) \<le> x \<and> x < length (heap ex_loaded_once))"
    by blast
  moreover from t2 k have "package_modules ex_os_off ex_loaded_once 0 = (Inr [1, 2], ex_loaded_once)"
    by blast
  ultimately show ?thesis using f by simp
qed

text \<open>
  Claim C2 as stated fails: a second call of \<open>load\<close> on the loaded package scans again
  and replaces the children \<open>1, 2\<close> and \<open>3\<close> by the new objects \<open>4, 5\<close> and \<open>6\<close>.
\<close>

theorem package_load_twice_counterexample:
  "fst (package_load ex_os ex_pkg_state 0) = None
   \<and> u_modules (heap ex_loaded_once ! 0) = Some [1, 2]
   \<and> u_packages (heap ex_loaded_once ! 0) = Some [3]
   \<and> length (heap ex_loaded_once) = 4
   \<and> fst (package_load ex_os ex_loaded_once 0) = None
   \<and> u_modules (heap ex_loaded_twice ! 0) = Some [4, 5]
   \<and> u_packages (heap ex_loaded_twice ! 0) = Some [6]
   \<and> length (heap ex_loaded_twice) = 7
   \<and> package_load ex_os ex_loaded_once 0 \<noteq> (None, ex_loaded_once)"
proof -
  have a: "fst (package_load ex_os ex_pkg_state 0) = None
   \<and> u_modules (heap ex_loaded_once ! 0) = Some [1, 2]
   \<and> u_packages (heap ex_loaded_once ! 0) = Some [3]
   \<and> length (heap ex_loaded_once) = 4
   \<and> fst (package_load ex_os ex_loaded_once 0) = None
   \<and> u_modules (heap ex_loaded_twice ! 0) = Some [4, 5]
   \<and> u_packages (heap ex_loaded_twice ! 0) = Some [6]
   \<and> length (heap ex_loaded_twice) = 7"
    unfolding ex_loaded_twice_def ex_loaded_once_def by code_simp
  have "package_load ex_os ex_loaded_once 0 \<noteq> (None, ex_loaded_once)"
  proof
    assume "package_load ex_os ex_loaded_once 0 = (None, ex_loaded_once)"
    then have "ex_loaded_twice = ex_loaded_once" by (simp add: ex_loaded_twice_def)
    moreover from a have "length (heap ex_loaded_once) = 4" "length (heap ex_loaded_twice) = 7"
      by simp_all
    ultimately show False by simp
  qed
  with a show ?thesis by simp
qed

subsection \<open>Lookup by qualified name\<close>

text \<open>
  Claim C8, as the code has it. When \<open>get_module\<close> returns, a repeated call with the same
  qualname returns the same result and leaves the state unchanged, with any recursion
  bound and on any host. On a project whose index has not been built: when the walk of
  \<open>iter_module\<close> succeeds and every module on it has a qualname, \<open>get_module\<close> returns,
  for this and every larger recursion bound and for every qualname, what the index holds
  and stores the index, and so does every later call; the index holds nothing for a
  qualname that no module of the walk has, a module it holds for a qualname is on the walk
  and has that qualname, and the qualname of every module of the walk is found. When the
  walk raises, \<open>get_module\<close> raises the same exception, and when a qualname does not
  return it raises \<open>RecursionError\<close>: then there is no "not found" result.
\<close>

theorem get_module_index:
  "(get_module n os s qn = (Inr res, s1) \<longrightarrow> get_module n' os' s1 qn = (Inr res, s1))
   \<and> (p_rmodules s = None \<and> project_iter_module n os s = (Inr xs, s2)
        \<and> (\<forall>x \<in> set xs. qualname (heap s2) x \<noteq> None) \<longrightarrow>
        (\<exists>idx. (\<forall>q m. n \<le> m \<longrightarrow>
                    get_module m os s q = (Inr (idx q), s2\<lparr>p_rmodules := Some idx\<rparr>))
           \<and> (\<forall>q m os'. get_module m os' (s2\<lparr>p_rmodules := Some idx\<rparr>) q
                           = (Inr (idx q), s2\<lparr>p_rmodules := Some idx\<rparr>))
           \<and> (\<forall>q. (\<forall>x \<in> set xs. qualname (heap s2) x \<noteq> Some q) \<longrightarrow> idx q = None)
           \<and> (\<forall>q x. idx q = Some x \<longrightarrow> x \<in> set xs \<and> qualname (heap s2) x = Some q)
           \<and> (\<forall>x \<in> set xs. \<forall>q. qualname (heap s2) x = Some q \<longrightarrow> idx q \<noteq> None)))
   \<and> (p_rmodules s = None \<and> project_iter_module n os s = (Inl e, s2) \<longrightarrow>
        get_module n os s qn = (Inl e, s2))
   \<and> (p_rmodules s = None \<and> project_iter_module n os s = (Inr xs, s2)
        \<and> (\<exists>x \<in> set xs. qualname (heap s2) x = None) \<longrightarrow>
        get_module n os s qn = (Inl RecursionError, s2))"
proof -
  have a: "get_module n os s qn = (Inr res, s1) \<longrightarrow> get_module n' os' s1 qn = (Inr res, s1)"
    by (auto simp: get_module_def split: option.splits prod.splits sum.splits)
  have b: "\<exists>idx. (\<forall>q m. n \<le> m \<longrightarrow>
                    get_module m os s q = (Inr (idx q), s2\<lparr>p_rmodules := Some idx\<rparr>))
           \<and> (\<forall>q m os'. get_module m os' (s2\<lparr>p_rmodules := Some idx\<rparr>) q
                           = (Inr (idx q), s2\<lparr>p_rmodules := Some idx\<rparr>))
           \<and> (\<forall>q. (\<forall>x \<in> set xs. qualname (heap s2) x \<noteq> Some q) \<longrightarrow> idx q = None)
           \<and> (\<forall>q x. idx q = Some x \<longrightarrow> x \<in> set xs \<and> qualname (heap s2) x = Some q)
           \<and> (\<forall>x \<in> set xs. \<forall>q. qualname (heap s2) x = Some q \<longrightarrow> idx q \<noteq> None)"
    if n: "p_rmodules s = None" and it: "project_iter_module n os s = (Inr xs, s2)"
      and qs: "\<forall>x \<in> set xs. qualname (heap s2) x \<noteq> None"
  proof -
    from build_index_total [OF qs, of Map.empty] obtain idx where
      bi: "build_index (heap s2) xs Map.empty = Some idx" ..
    have 1: "get_module m os s q = (Inr (idx q), s2\<lparr>p_rmodules := Some idx\<rparr>)" if "n \<le> m" for q m
      using n project_iter_module_mono [OF it that] bi by (simp add: get_module_def)
    have 2: "get_module m os' (s2\<lparr>p_rmodules := Some idx\<rparr>) q
               = (Inr (idx q), s2\<lparr>p_rmodules := Some idx\<rparr>)" for q m os'
      by (simp add: get_module_def)
    have 4: "x \<in> set xs \<and> qualname (heap s2) x = Some q" if "idx q = Some x" for q x
      using build_index_sound [OF bi that] by simp
    have 3: "idx q = None" if "\<forall>x \<in> set xs. qualname (heap s2) x \<noteq> Some q" for q
      using 4 [of q] that by (cases "idx q") auto
    have 5: "idx q \<noteq> None" if "x \<in> set xs" "qualname (heap s2) x = Some q" for x q
      using build_index_complete [OF bi that] .
    from 1 2 3 4 5 show ?thesis by blast
  qed
  have c: "p_rmodules s = None \<and> project_iter_module n os s = (Inl e, s2) \<longrightarrow>
        get_module n os s qn = (Inl e, s2)"
    by (simp add: get_module_def)
  have d: "p_rmodules s = None \<and> project_iter_module n os s = (Inr xs, s2)
        \<and> (\<exists>x \<in> set xs. qualname (heap s2) x = None) \<longrightarrow>
        get_module n os s qn = (Inl RecursionError, s2)"
    using build_index_fails [of xs "heap s2" Map.empty] by (auto simp: get_module_def)
  from a b c d show ?thesis by blast
qed

text \<open>
  The project loaded from \<open>ex_pkg_data\<close>: the walk yields the modules \<open>1, 2, 4\<close>;
  \<open>pkg.m\<close> is found, and found again once nothing can be scanned; \<open>pkg.sub\<close> is the
  qualname of a package and of no module and is answered by \<open>None\<close>, on the first
  call and on the indexed project.
\<close>

theorem get_module_index_witness:
  "fst (project_load ex_os (project_init ''/w'') ex_pkg_data) = None
   \<and> fst (project_iter_module 3 ex_os ex_pkg_project) = Inr [1, 2, 4]
   \<and> fst (get_module 3 ex_os ex_pkg_project ''pkg.m'') = Inr (Some 2)
   \<and> fst (get_module 7 ex_os ex_pkg_project ''pkg.sub'') = Inr None
   \<and> get_module 0 ex_os_off (snd (get_module 3 ex_os ex_pkg_project ''pkg.m'')) ''pkg.m''
       = (Inr (Some 2), snd (get_module 3 ex_os ex_pkg_project ''pkg.m''))
   \<and> fst (get_module 0 ex_os_off (snd (get_module 3 ex_os ex_pkg_project ''pkg.m'')) ''pkg.sub'')
       = Inr None"
proof -
  let ?T = "snd (project_iter_module 3 ex_os ex_pkg_project)"
  have l: "fst (project_load ex_os (project_init ''/w'') ex_pkg_data) = None" by code_simp
  have n: "p_rmodules ex_pkg_project = None" unfolding ex_pkg_project_def by code_simp
  have i: "fst (project_iter_module 3 ex_os ex_pkg_project) = Inr [1, 2, 4]"
    unfolding ex_pkg_project_def by code_simp
  then have it: "project_iter_module 3 ex_os ex_pkg_project = (Inr [1, 2, 4], ?T)"
    by (simp add: prod_eq_iff)
  have q: "qualname (heap ?T) 1 = Some ''pkg'' \<and> qualname (heap ?T) 2 = Some ''pkg.m''
           \<and> qualname (heap ?T) 4 = Some ''pkg.sub.x''"
    unfolding ex_pkg_project_def by code_simp
  then have qs: "\<forall>x \<in> set [1, 2, 4]. qualname (heap ?T) x \<noteq> None" by simp
  note t = get_module_index [of 3 ex_os ex_pkg_project "''pkg.m''" None ex_pkg_project 0 ex_os
             "[1, 2, 4]" ?T OSError]
  from n it qs have pre: "p_rmodules ex_pkg_project = None
      \<and> project_iter_module 3 ex_os ex_pkg_project = (Inr [1, 2, 4], ?T)
      \<and> (\<forall>x \<in> set [1, 2, 4]. qualname (heap ?T) x \<noteq> None)"
    by simp
  from mp [OF conjunct1 [OF conjunct2 [OF t]] pre] obtain idx where
    I: "(\<forall>q m. 3 \<le> m \<longrightarrow>
            get_module m ex_os ex_pkg_project q = (Inr (idx q), ?T\<lparr>p_rmodules := Some idx\<rparr>))
        \<and> (\<forall>q m os'. get_module m os' (?T\<lparr>p_rmodules := Some idx\<rparr>) q
                           = (Inr (idx q), ?T\<lparr>p_rmodules := Some idx\<rparr>))
        \<and> (\<forall>q. (\<forall>x \<in> set [1, 2, 4]. qualname (heap ?T) x \<noteq> Some q) \<longrightarrow> idx q = None)
        \<and> (\<forall>q x. idx q = Some x \<longrightarrow> x \<in> set [1, 2, 4] \<and> qualname (heap ?T) x = Some q)
        \<and> (\<forall>x \<in> set [1, 2, 4]. \<forall>q. qualname (heap ?T) x = Some q \<longrightarrow> idx q \<noteq> None)"
    ..
  from I have g1: "\<And>q m. 3 \<le> m \<Longrightarrow> get_module m ex_os ex_pkg_project q
                   = (Inr (idx q), ?T\<lparr>p_rmodules := Some idx\<rparr>)"
    by blast
  from I have g2: "\<And>q m os'. get_module m os' (?T\<lparr>p_rmodules := Some idx\<rparr>) q
                   = (Inr (idx q), ?T\<lparr>p_rmodules := Some idx\<rparr>)"
    by blast
  from I have absent: "\<And>q. (\<forall>x \<in> set [1, 2, 4]. qualname (heap ?T) x \<noteq> Some q) \<Longrightarrow> idx q = None"
    by blast
  from I have sound: "\<And>q x. idx q = Some x \<Longrightarrow> x \<in> set [1, 2, 4] \<and> qualname (heap ?T) x = Some q"
    by blast
  from I have complete: "\<And>x q. x \<in> set [1, 2, 4] \<Longrightarrow> qualname (heap ?T) x = Some q \<Longrightarrow> idx q \<noteq> None"
    by blast
  from q have "\<forall>x \<in> set [1, 2, 4]. qualname (heap ?T) x \<noteq> Some ''pkg.sub''" by simp
  from absent [OF this] have s: "idx ''pkg.sub'' = None" .
  from complete [of 2 "''pkg.m''"] q obtain y where y: "idx ''pkg.m'' = Some y" by auto
  from sound [OF y] q have "y = 2" by auto
  with y have m: "idx ''pkg.m'' = Some 2" by simp
  from g1 [of 3 "''pkg.m''"] m
  have a: "get_module 3 ex_os ex_pkg_project ''pkg.m'' = (Inr (Some 2), ?T\<lparr>p_rmodules := Some idx\<rparr>)"
    by simp
  from g1 [of 7 "''pkg.sub''"] s
  have b: "fst (get_module 7 ex_os ex_pkg_project ''pkg.sub'') = Inr None" by simp
  from g2 [of 0 ex_os_off "''pkg.m''"] m a
  have c: "get_module 0 ex_os_off (snd (get_module 3 ex_os ex_pkg_project ''pkg.m'')) ''pkg.m''
       = (Inr (Some 2), snd (get_module 3 ex_os ex_pkg_project ''pkg.m''))"
    by simp
  from g2 [of 0 ex_os_off "''pkg.sub''"] s a
  have d: "fst (get_module 0 ex_os_off (snd (get_module 3 ex_os ex_pkg_project ''pkg.m'')) ''pkg.sub'')
       = Inr None"
    by simp
  from l i a b c d show ?thesis by simp
qed

text \<open>
  Claim C8 as stated fails where a package cannot be scanned. After
  \<open>load(ex_missing_data)\<close> the project owns the package \<open>/p/missing\<close>, whose directory
  does not exist, and no module; the lookup of \<open>nope\<close> raises \<open>OSError\<close> instead of
  answering "not found".
\<close>

theorem get_module_scan_error_counterexample:
  "fst (project_load ex_os (project_init ''/w'') ex_missing_data) = None
   \<and> p_modules ex_missing_project = [] \<and> p_packages ex_missing_project = [0]
   \<and> length (heap ex_missing_project) = 1
   \<and> u_modules (heap ex_missing_project ! 0) = None
   \<and> fst (get_module 3 ex_os ex_missing_project ''nope'') = Inl OSError"
  unfolding ex_missing_project_def by code_simp

subsection \<open>Loading a project\<close>

text \<open>
  Claim C9. Whatever state \<open>load\<close> is called in, and so also on a second call, and
  whether it returns or raises, the scripts, modules and packages present before are a
  prefix of the lists afterwards, and the objects on the heap are unchanged: none is
  replaced or removed. When the working directory can be created, \<open>src\<close> is present
  and the discovery raises nothing, \<open>load\<close> returns, and the state it leaves is the
  old one with exactly the discovered scripts, packages and modules appended (and
  \<open>src\<close> assigned); a call that returns has done exactly this.
\<close>

theorem project_load_appends:
  "(project_load os s data = (e, s') \<longrightarrow>
      prefix (p_scripts s) (p_scripts s') \<and> prefix (p_modules s) (p_modules s')
      \<and> prefix (p_packages s) (p_packages s') \<and> prefix (heap s) (heap s'))
   \<and> (os_makedirs os (joinpath (local_path s) ''project'') \<and> data ''src'' = Some src
        \<and> discovered os src data = Inr (S, P, M) \<longrightarrow>
        project_load os s data = (None, (appended s S P M)\<lparr>p_src := src\<rparr>))
   \<and> (project_load os s data = (None, s') \<longrightarrow>
        (\<exists>src' S' P' M'. data ''src'' = Some src' \<and> discovered os src' data = Inr (S', P', M')
           \<and> s' = (appended s S' P' M')\<lparr>p_src := src'\<rparr>))"
proof -
  have a: "project_load os s data = (e, s') \<longrightarrow>
      prefix (p_scripts s) (p_scripts s') \<and> prefix (p_modules s) (p_modules s')
      \<and> prefix (p_packages s) (p_packages s') \<and> prefix (heap s) (heap s')"
    using grows_project_load [of s os data] by (auto simp: grows_def)
  have b: "os_makedirs os (joinpath (local_path s) ''project'') \<and> data ''src'' = Some src
        \<and> discovered os src data = Inr (S, P, M) \<longrightarrow>
        project_load os s data = (None, (appended s S P M)\<lparr>p_src := src\<rparr>)"
    using project_load_exact [of os s data src] by auto
  have c: "project_load os s data = (None, s') \<longrightarrow>
        (\<exists>src' S' P' M'. data ''src'' = Some src' \<and> discovered os src' data = Inr (S', P', M')
           \<and> s' = (appended s S' P' M')\<lparr>p_src := src'\<rparr>)"
    using project_load_discovered [of os s data s'] by blast
  from a b c show ?thesis by blast
qed

text \<open>
  Loading \<open>ex_data\<close> a second time keeps script \<open>0\<close>, packages \<open>1, 2\<close> and module
  \<open>3\<close> and appends the new script \<open>4\<close>, the packages \<open>5, 6\<close> (\<open>pkg\<close> and
  \<open>core\<close>) and the module \<open>7\<close>.
\<close>

theorem project_load_appends_witness:
  "project_load ex_os ex_project ex_data
     = (None, snd (project_load ex_os ex_project ex_data))
   \<and> p_scripts ex_project = [0] \<and> p_packages ex_project = [1, 2] \<and> p_modules ex_project = [3]
   \<and> p_scripts (snd (project_load ex_os ex_project ex_data)) = [0, 4]
   \<and> p_packages (snd (project_load ex_os ex_project ex_data)) = [1, 2, 5, 6]
   \<and> p_modules (snd (project_load ex_os ex_project ex_data)) = [3, 7]
   \<and> heap (snd (project_load ex_os ex_project ex_data))
       = heap ex_project
         @ [new_unit ScriptK ''main.py'' None ProjectParent,
            new_unit PackageK ''/p/pkg'' (Some ''pkg'') ProjectParent,
            new_unit PackageK ''/p/lib'' (Some ''core'') ProjectParent,
            new_unit ModuleK ''util.py'' None ProjectParent]
   \<and> prefix (heap ex_project) (heap (snd (project_load ex_os ex_project ex_data)))"
proof -
  let ?S = "[new_unit ScriptK ''main.py'' None ProjectParent]"
  let ?P = "[new_unit PackageK ''/p/pkg'' (Some ''pkg'') ProjectParent,
             new_unit PackageK ''/p/lib'' (Some ''core'') ProjectParent]"
  let ?M = "[new_unit ModuleK ''util.py'' None ProjectParent]"
  have mk: "os_makedirs ex_os (joinpath (local_path ex_project) ''project'')"
    by (simp add: ex_os_def)
  have src: "ex_data ''src'' = Some ''/p''" by (simp add: ex_data_def)
  have d: "discovered ex_os ''/p'' ex_data = Inr (?S, ?P, ?M)" by code_simp
  have v: "p_scripts ex_project = [0] \<and> p_packages ex_project = [1, 2]
           \<and> p_modules ex_project = [3] \<and> length (heap ex_project) = 4"
    unfolding ex_project_def by code_simp
  note t = project_load_appends [of ex_os ex_project ex_data None
             "(appended ex_project ?S ?P ?M)\<lparr>p_src := ''/p''\<rparr>" "''/p''" ?S ?P ?M]
  from t mk src d
  have r: "project_load ex_os ex_project ex_data
             = (None, (appended ex_project ?S ?P ?M)\<lparr>p_src := ''/p''\<rparr>)"
    by blast
  with t have p: "prefix (heap ex_project) (heap ((appended ex_project ?S ?P ?M)\<lparr>p_src := ''/p''\<rparr>))"
    by blast
  from r v p show ?thesis by (simp add: appended_def)
qed

text \<open>
  Claim C7, as the code has it. \<open>load\<close> raises \<open>KeyError\<close> exactly when \<open>src\<close> is
  absent and the working directory could be created: \<open>os.makedirs\<close> runs before the
  lookup of \<open>src\<close>. Whenever \<open>src\<close> is absent the call raises and leaves the state
  as it was.
\<close>

theorem project_load_missing_src:
  "(fst (project_load os s data) = Some KeyError
      \<longleftrightarrow> data ''src'' = None \<and> os_makedirs os (joinpath (local_path s) ''project''))
   \<and> (data ''src'' = None \<longrightarrow>
        fst (project_load os s data) \<noteq> None \<and> snd (project_load os s data) = s)"
proof (cases "os_makedirs os (joinpath (local_path s) ''project'')")
  case False
  then show ?thesis by (simp add: project_load_def)
next
  case mk: True
  show ?thesis
  proof (cases "data ''src''")
    case None
    with mk show ?thesis by (simp add: project_load_def)
  next
    case (Some src)
    from project_load_some_src [of os s data src, OF mk Some] Some show ?thesis by simp
  qed
qed

text \<open>A record without \<open>src\<close> on a host where the directory can be created.\<close>

theorem project_load_missing_src_witness:
  "ex_no_src ''src'' = None
   \<and> project_load ex_os (project_init ''/w'') ex_no_src = (Some KeyError, project_init ''/w'')"
proof -
  have n: "ex_no_src ''src'' = None" by (simp add: ex_no_src_def)
  have m: "os_makedirs ex_os (joinpath (local_path (project_init ''/w'')) ''project'')"
    by (simp add: ex_os_def)
  note t = project_load_missing_src [of ex_os "project_init ''/w''" ex_no_src]
  from t n m have "fst (project_load ex_os (project_init ''/w'') ex_no_src) = Some KeyError"
    by blast
  moreover from t n have "snd (project_load ex_os (project_init ''/w'') ex_no_src) = project_init ''/w''"
    by blast
  ultimately show ?thesis using n by (simp add: prod_eq_iff)
qed

text \<open>
  Claim C7 as stated fails where \<open>os.makedirs\<close> raises: \<open>src\<close> is absent and the
  exception is \<open>OSError\<close>, not \<open>KeyError\<close>.
\<close>

theorem project_load_makedirs_counterexample:
  "(Map.empty :: string \<rightharpoonup> string) ''src'' = None
   \<and> project_load ex_os_off (project_init ''/w'') Map.empty = (Some OSError, project_init ''/w'')"
  by (simp add: project_load_def ex_os_off_def)

text \<open>
  Claim C3 at the input \<open>ex_dup_data\<close>. The module pattern \<open>main.py\<close> is given twice,
  so the resolved module list holds \<open>/p/main.py\<close> twice; \<open>modules.remove\<close> deletes one
  occurrence, and the path is loaded both as a script and as a module. (When the
  resolved module list has no duplicates, no script path remains in it:
  \<open>reconcile_distinct\<close>.)
\<close>

theorem project_load_duplicate_module:
  "reconcile [''/p/main.py''] [''/p/main.py'', ''/p/main.py''] = [''/p/main.py'']
   \<and> fst (project_load ex_os (project_init ''/w'') ex_dup_data) = None
   \<and> map (\<lambda>r. (u_kind (heap (snd (project_load ex_os (project_init ''/w'') ex_dup_data)) ! r),
                u_path (heap (snd (project_load ex_os (project_init ''/w'') ex_dup_data)) ! r)))
        (p_scripts (snd (project_load ex_os (project_init ''/w'') ex_dup_data)))
       = [(ScriptK, ''main.py'')]
   \<and> map (\<lambda>r. (u_kind (heap (snd (project_load ex_os (project_init ''/w'') ex_dup_data)) ! r),
                u_path (heap (snd (project_load ex_os (project_init ''/w'') ex_dup_data)) ! r)))
        (p_modules (snd (project_load ex_os (project_init ''/w'') ex_dup_data)))
       = [(ModuleK, ''main.py'')]"
  by code_simp

subsection \<open>Unknown calls\<close>

text \<open>
  Claim C4, as the code has it. A string key with at least three colon-separated fields
  whose third field contains a dot is appended to \<open>unknown_args\<close> when it is not
  there yet, by equality of strings, and nothing else changes; there is no exception.
\<close>

theorem log_unknown_call_dotted:
  assumes "3 \<le> length (split_char (CHR '':'') func)"
    and "CHR ''.'' \<in> set (split_char (CHR '':'') func ! 2)"
  shows "log_unknown_call s (StrKey func) =
           (None, if func \<in> set (unknown_args s) then s
                  else s\<lparr>unknown_args := unknown_args s @ [func]\<rparr>)"
  using assms by (simp add: find_char_def)

text \<open>The key \<open>m:f:g.h\<close> on a new project.\<close>

theorem log_unknown_call_dotted_witness:
  "3 \<le> length (split_char (CHR '':'') ''m:f:g.h'')
   \<and> CHR ''.'' \<in> set (split_char (CHR '':'') ''m:f:g.h'' ! 2)
   \<and> log_unknown_call (project_init ''/w'') (StrKey ''m:f:g.h'')
       = (None, (project_init ''/w'')\<lparr>unknown_args := [''m:f:g.h'']\<rparr>)"
proof -
  have a: "3 \<le> length (split_char (CHR '':'') ''m:f:g.h'')" by simp
  have b: "CHR ''.'' \<in> set (split_char (CHR '':'') ''m:f:g.h'' ! 2)" by simp
  have c: "unknown_args (project_init ''/w'') = []" by (simp add: project_init_def)
  from log_unknown_call_dotted [OF a b, of "project_init ''/w''"] c
  have "log_unknown_call (project_init ''/w'') (StrKey ''m:f:g.h'')
       = (None, (project_init ''/w'')\<lparr>unknown_args := [''m:f:g.h'']\<rparr>)"
    by simp
  with a b show ?thesis by blast
qed

text \<open>
  Claim C4 as stated fails. A key of the form \<open>module:scope.name\<close> has two fields and
  raises \<open>IndexError\<close>; a key whose third field has no dot raises \<open>TypeError\<close> and
  \<open>unknown_vars\<close> stays empty; a key whose third field has a dot goes to
  \<open>unknown_args\<close>, and \<open>unknown_calls\<close> stays empty.
\<close>

theorem log_unknown_call_string_counterexample:
  "log_unknown_call (project_init ''/w'') (StrKey ''m:f.g'') = (Some IndexError, project_init ''/w'')
   \<and> log_unknown_call (project_init ''/w'') (StrKey ''m:f:g'') = (Some TypeError, project_init ''/w'')
   \<and> unknown_vars (snd (log_unknown_call (project_init ''/w'') (StrKey ''m:f:g''))) = []
   \<and> unknown_calls (snd (log_unknown_call (project_init ''/w'') (StrKey ''m:f:g.h''))) = []
   \<and> unknown_args (snd (log_unknown_call (project_init ''/w'') (StrKey ''m:f:g.h''))) = [''m:f:g.h'']"
  by (simp add: find_char_def project_init_def)

end
